theory Spec2Isabelle
  imports Main "HOL-Library.Word" "HOL-Library.Sublist"
begin

section \<open>Data model of the router use case\<close>

text \<open>
  The planner of \<^verbatim>\<open>ingest/sqs/router/usecase\<close>: candidate routes are plain data
  (pool ids and token-out denoms), ranked routes are the same routes bound to live pools.
  Pool ids are Go \<^verbatim>\<open>uint64\<close>, amounts are big integers, denoms are strings.
\<close>

type_synonym denom = string
type_synonym pool_id = "64 word"

record Coin =
  Denom :: denom
  Amount :: int

text \<open>\<^verbatim>\<open>route.CandidatePool\<close>, \<^verbatim>\<open>route.CandidateRoute\<close> and \<^verbatim>\<open>route.CandidateRoutes\<close>.
  The Go field \<^verbatim>\<open>UniquePoolIDs map[uint64]struct{}\<close> is a set of keys; a nil map and an
  empty map are both the empty set here.\<close>

record CandidatePool =
  ID :: pool_id
  TokenOutDenom :: denom

record CandidateRoute =
  Pools :: "CandidatePool list"

record CandidateRoutes =
  Routes :: "CandidateRoute list"
  UniquePoolIDs :: "pool_id set"

text \<open>\<^verbatim>\<open>domain.RoutablePool\<close> is an interface; the use case reads \<^verbatim>\<open>GetId()\<close> and
  \<^verbatim>\<open>GetTokenOutDenom()\<close> only. Everything else a bound pool carries (the pool record, the
  taker fee, the spread factor) is the opaque field \<open>bound\<close>.\<close>

record 'b RoutablePool =
  GetId :: pool_id
  GetTokenOutDenom :: denom
  bound :: 'b

record 'b RouteImpl =
  GetPools :: "'b RoutablePool list"

text \<open>The pool ids of a ranked route and of a candidate route, as sets.\<close>

definition routePoolIDs :: "'b RouteImpl \<Rightarrow> pool_id set" where
  "routePoolIDs r = GetId ` set (GetPools r)"

definition candidatePoolIDs :: "CandidateRoute \<Rightarrow> pool_id set" where
  "candidatePoolIDs c = ID ` set (Pools c)"

section \<open>filterDuplicatePoolIDRoutes\<close>

text \<open>
  The inner loop over the pools of one route. \<open>combined\<close> is \<^verbatim>\<open>combinedPoolIDsMap\<close>,
  \<open>current\<close> is \<^verbatim>\<open>currentRoutePoolIDsMap\<close>, the flag is \<^verbatim>\<open>existsPoolID\<close>, reassigned at
  every pool; the loop breaks at the first pool id found in \<open>combined\<close>.
\<close>

fun scanRoutePools ::
  "pool_id set \<Rightarrow> 'b RoutablePool list \<Rightarrow> bool \<Rightarrow> pool_id set \<Rightarrow> bool \<times> pool_id set" where
  "scanRoutePools combined [] existsPoolID current = (existsPoolID, current)"
| "scanRoutePools combined (pool # pools) existsPoolID current =
     (let poolID = GetId pool in
      if poolID \<in> combined then (True, current)
      else scanRoutePools combined pools False (insert poolID current))"

text \<open>
  The outer loop over the ranked routes: a route with \<^verbatim>\<open>existsPoolID\<close> set is skipped
  (\<^verbatim>\<open>continue\<close>); otherwise its ids are merged into \<open>combined\<close> and the route is appended
  to \<^verbatim>\<open>filteredRankedRoutes\<close>.
\<close>

fun filterLoop ::
  "pool_id set \<Rightarrow> 'b RouteImpl list \<Rightarrow> 'b RouteImpl list \<Rightarrow> 'b RouteImpl list" where
  "filterLoop combined filtered [] = filtered"
| "filterLoop combined filtered (route # rest) =
     (case scanRoutePools combined (GetPools route) False {} of
        (True, current) \<Rightarrow> filterLoop combined filtered rest
      | (False, current) \<Rightarrow> filterLoop (combined \<union> current) (filtered @ [route]) rest)"

definition filterDuplicatePoolIDRoutes :: "'b RouteImpl list \<Rightarrow> 'b RouteImpl list" where
  "filterDuplicatePoolIDRoutes rankedRoutes = filterLoop {} [] rankedRoutes"

section \<open>convertRankedToCandidateRoutes\<close>

text \<open>The inner loop: one candidate pool per ranked pool, appended in order, and the
  pool id stored in \<^verbatim>\<open>UniquePoolIDs\<close>.\<close>

fun convertPools ::
  "'b RoutablePool list \<Rightarrow> CandidateRoute \<Rightarrow> pool_id set \<Rightarrow> CandidateRoute \<times> pool_id set" where
  "convertPools [] candidateRoute uniq = (candidateRoute, uniq)"
| "convertPools (rankedPool # rest) candidateRoute uniq =
     (let candidatePool = \<lparr>ID = GetId rankedPool, TokenOutDenom = GetTokenOutDenom rankedPool\<rparr> in
      convertPools rest (candidateRoute\<lparr>Pools := Pools candidateRoute @ [candidatePool]\<rparr>)
        (insert (GetId rankedPool) uniq))"

fun convertLoop :: "'b RouteImpl list \<Rightarrow> CandidateRoutes \<Rightarrow> CandidateRoutes" where
  "convertLoop [] candidateRoutes = candidateRoutes"
| "convertLoop (rankedRoute # rest) candidateRoutes =
     (case convertPools (GetPools rankedRoute) \<lparr>Pools = []\<rparr> (UniquePoolIDs candidateRoutes) of
        (candidateRoute, uniq) \<Rightarrow>
          convertLoop rest \<lparr>Routes = Routes candidateRoutes @ [candidateRoute], UniquePoolIDs = uniq\<rparr>)"

definition convertRankedToCandidateRoutes :: "'b RouteImpl list \<Rightarrow> CandidateRoutes" where
  "convertRankedToCandidateRoutes rankedRoutes =
     convertLoop rankedRoutes \<lparr>Routes = [], UniquePoolIDs = {}\<rparr>"

section \<open>Errors, configuration and collaborators\<close>

text \<open>
  Every error the use case creates itself is a constructor; an error returned by a
  collaborator (repository, pools use case, router, request context) is propagated
  unchanged and is \<open>Collaborator\<close> with its message. \<open>Panic\<close> is a Go run-time panic
  (index or slice bound out of range).
\<close>

datatype error =
    Collaborator string
  | CastError
  | NoRankedRoutes
  | ZeroOutput
  | NoMatchingRoute "pool_id list"
  | RouteIndexOutOfBounds int
  | RouteCacheDisabled
  | Panic

record RouterConfig =
  PreferredPoolIDs :: "pool_id list"
  MaxPoolsPerRoute :: int
  MaxRoutes :: int
  MaxSplitRoutes :: int
  MaxSplitIterations :: int
  MinOSMOLiquidity :: int
  RouteUpdateHeightInterval :: int
  RouteCacheEnabled :: bool

text \<open>Modelled from the spec: the \<^verbatim>\<open>Router\<close> struct and its constructor \<^verbatim>\<open>NewRouter\<close> are
  declared in a file that is not part of the sources; the record holds the constructor's
  arguments and the sorted pools. Of its fields, the use case reads \<^verbatim>\<open>maxSplitRoutes\<close>
  only.\<close>

record 'p Router =
  preferredPoolIDs :: "pool_id list"
  maxHops :: int
  maxRoutes :: int
  maxSplitRoutes :: int
  maxSplitIterations :: int
  minOsmoLiquidity :: int
  sortedPools :: "'p list"

definition NewRouter :: "pool_id list \<Rightarrow> int \<Rightarrow> int \<Rightarrow> int \<Rightarrow> int \<Rightarrow> int \<Rightarrow> 'p Router" where
  "NewRouter preferred hops routes splitRoutes splitIterations minLiquidity =
     \<lparr>preferredPoolIDs = preferred, maxHops = hops, maxRoutes = routes,
      maxSplitRoutes = splitRoutes, maxSplitIterations = splitIterations,
      minOsmoLiquidity = minLiquidity, sortedPools = []\<rparr>"

definition initializeRouter :: "RouterConfig \<Rightarrow> 'p Router" where
  "initializeRouter config =
     NewRouter [] (MaxPoolsPerRoute config) (MaxRoutes config) (MaxSplitRoutes config)
       (MaxSplitIterations config) (MinOSMOLiquidity config)"

text \<open>\<^verbatim>\<open>RouteWithOutAmount\<close> embeds a route with its estimated amounts; a quote exposes
  \<^verbatim>\<open>GetAmountIn()\<close>, \<^verbatim>\<open>GetAmountOut()\<close> and \<^verbatim>\<open>GetRoute()\<close>.\<close>

record 'b RouteWithOutAmount =
  RouteImpl :: "'b RouteImpl"
  OutAmount :: int
  InAmount :: int

record 'b Quote =
  GetAmountIn :: Coin
  GetAmountOut :: int
  GetRoute :: "'b RouteWithOutAmount list"

text \<open>
  The collaborators of the use case are Go interfaces and functions of other packages;
  they are parameters of the model. \<open>'r\<close> is the state of the route repository, \<open>'p\<close> a
  pool, \<open>'f\<close> the taker fee map, \<open>'b\<close> the bound state of a routable pool and \<open>'c\<close> the
  request context. A collaborator that can fail returns its error message on the left.
  The read operations return no state; \<^verbatim>\<open>SetRoutes\<close> returns the repository it leaves
  behind together with its error, if any.
\<close>

record ('r, 'p, 'f, 'b, 'c) collaborators =
  GetURLPathFromContext :: "'c \<Rightarrow> string + string"
  OrderOfMagnitude :: "int \<Rightarrow> int"
  GetRoutes :: "'c \<Rightarrow> 'r \<Rightarrow> denom \<Rightarrow> denom \<Rightarrow> string + CandidateRoutes"
  SetRoutes :: "'c \<Rightarrow> 'r \<Rightarrow> denom \<Rightarrow> denom \<Rightarrow> CandidateRoutes \<Rightarrow> string option \<times> 'r"
  GetAllTakerFees :: "'c \<Rightarrow> 'r \<Rightarrow> string + 'f"
  GetAllPools :: "'c \<Rightarrow> string + 'p list"
  GetRoutesFromCandidates ::
    "'c \<Rightarrow> CandidateRoutes \<Rightarrow> 'f \<Rightarrow> denom \<Rightarrow> denom \<Rightarrow> string + 'b RouteImpl list"
  WithSortedPools :: "'p Router \<Rightarrow> 'p list \<Rightarrow> 'p Router"
  routerGetCandidateRoutes :: "'p Router \<Rightarrow> denom \<Rightarrow> denom \<Rightarrow> string + CandidateRoutes"
  estimateAndRankSingleRouteQuote ::
    "'p Router \<Rightarrow> 'b RouteImpl list \<Rightarrow> Coin \<Rightarrow> string + 'b Quote \<times> 'b RouteWithOutAmount list"
  GetSplitQuote :: "'p Router \<Rightarrow> 'b RouteImpl list \<Rightarrow> Coin \<Rightarrow> string + 'b Quote"

section \<open>State: route repository, ranked-route cache, metrics\<close>

text \<open>Modelled from the spec: the in-memory cache \<^verbatim>\<open>cache.Cache\<close> is declared in a package
  that is not part of the sources. It maps a string key to an opaque value stored with
  its time to live; \<^verbatim>\<open>Get\<close> returns the value and whether the key is present, \<^verbatim>\<open>Set\<close>
  overwrites. Expiry happens between calls and is not modelled. A cached value is a Go
  \<^verbatim>\<open>interface{}\<close>: either candidate routes or a value of another dynamic type, on which
  the type assertion of the use case fails.\<close>

datatype cache_value = CachedCandidateRoutes CandidateRoutes | CachedOther

type_synonym cache = "string \<rightharpoonup> cache_value \<times> int"

definition cache_Get :: "cache \<Rightarrow> string \<Rightarrow> cache_value option" where
  "cache_Get c key = map_option fst (c key)"

definition cache_Set :: "cache \<Rightarrow> string \<Rightarrow> cache_value \<Rightarrow> int \<Rightarrow> cache" where
  "cache_Set c key v ttl = c(key \<mapsto> (v, ttl))"

text \<open>Go's \<^verbatim>\<open>time.Duration\<close> counts nanoseconds.\<close>

definition time_Minute :: int where
  "time_Minute = 60 * 1000000000"

text \<open>The two Prometheus counter vectors, by label values
  (route, cache type, token in, token out).\<close>

type_synonym labels = "string \<times> string \<times> string \<times> string"

definition candidateRouteCacheLabel :: string where
  "candidateRouteCacheLabel = ''candidate_route''"

definition rankedRouteCacheLabel :: string where
  "rankedRouteCacheLabel = ''ranked_route''"

definition Inc :: "(labels \<Rightarrow> nat) \<Rightarrow> labels \<Rightarrow> (labels \<Rightarrow> nat)" where
  "Inc counter l = counter(l := Suc (counter l))"

record 'r state =
  routerRepository :: 'r
  rankedRouteCache :: cache
  cacheHits :: "labels \<Rightarrow> nat"
  cacheMisses :: "labels \<Rightarrow> nat"

section \<open>formatRankedRouteCacheKey\<close>

text \<open>\<^verbatim>\<open>fmt.Sprintf("%s/%s/%d", ...)\<close>: the decimal digits of an integer, with a minus sign
  when it is negative.\<close>

function fmt_nat :: "nat \<Rightarrow> string" where
  "fmt_nat n = (if n < 10 then [''0123456789'' ! n]
                else fmt_nat (n div 10) @ [''0123456789'' ! (n mod 10)])"
  by pat_completeness auto
termination
  by (relation "measure id") auto

declare fmt_nat.simps [simp del]

definition fmt_d :: "int \<Rightarrow> string" where
  "fmt_d i = (if i < 0 then ''-'' @ fmt_nat (nat (- i)) else fmt_nat (nat i))"

definition formatRankedRouteCacheKey :: "denom \<Rightarrow> denom \<Rightarrow> int \<Rightarrow> string" where
  "formatRankedRouteCacheKey tokenInDenom tokenOutDenom tokenIOrderOfMagnitude =
     tokenInDenom @ ''/'' @ tokenOutDenom @ ''/'' @ fmt_d tokenIOrderOfMagnitude"

section \<open>GetCachedCandidateRoutes and handleCandidateRoutes\<close>

definition emptyCandidateRoutes :: CandidateRoutes where
  "emptyCandidateRoutes = \<lparr>Routes = [], UniquePoolIDs = {}\<rparr>"

text \<open>\<^verbatim>\<open>GetCachedCandidateRoutes\<close> returns a Go pair: the value and the error, both kept here
  since the value returned next to an error is part of what the function is said to do.\<close>

definition GetCachedCandidateRoutes ::
  "('r, 'p, 'f, 'b, 'c) collaborators \<Rightarrow> RouterConfig \<Rightarrow> 'c \<Rightarrow> denom \<Rightarrow> denom \<Rightarrow> 'r state
     \<Rightarrow> (CandidateRoutes \<times> error option) \<times> 'r state" where
  "GetCachedCandidateRoutes env config ctx tokenInDenom tokenOutDenom s =
     (if \<not> RouteCacheEnabled config then ((emptyCandidateRoutes, Some RouteCacheDisabled), s)
      else case GetRoutes env ctx (routerRepository s) tokenInDenom tokenOutDenom of
             Inl msg \<Rightarrow> ((emptyCandidateRoutes, Some (Collaborator msg)), s)
           | Inr cachedCandidateRoutes \<Rightarrow> ((cachedCandidateRoutes, None), s))"

text \<open>\<^verbatim>\<open>handleCandidateRoutes\<close>: the named result \<^verbatim>\<open>candidateRoutes\<close> starts as the zero
  value and is read from the repository only when the route cache is enabled.\<close>

definition handleCandidateRoutes ::
  "('r, 'p, 'f, 'b, 'c) collaborators \<Rightarrow> RouterConfig \<Rightarrow> 'c \<Rightarrow> 'p Router \<Rightarrow> denom \<Rightarrow> denom
     \<Rightarrow> 'r state \<Rightarrow> (error + CandidateRoutes) \<times> 'r state" where
  "handleCandidateRoutes env config ctx router tokenInDenom tokenOutDenom s =
     (case (if RouteCacheEnabled config
            then GetRoutes env ctx (routerRepository s) tokenInDenom tokenOutDenom
            else Inr emptyCandidateRoutes) of
        Inl msg \<Rightarrow> (Inl (Collaborator msg), s)
      | Inr candidateRoutes \<Rightarrow>
         (case GetURLPathFromContext env ctx of
            Inl msg \<Rightarrow> (Inl (Collaborator msg), s)
          | Inr requestURLPath \<Rightarrow>
             if length (Routes candidateRoutes) = 0 then
               (let s1 = s\<lparr>cacheMisses := Inc (cacheMisses s)
                              (requestURLPath, candidateRouteCacheLabel, tokenInDenom, tokenOutDenom)\<rparr>
                in case GetAllPools env ctx of
                     Inl msg \<Rightarrow> (Inl (Collaborator msg), s1)
                   | Inr allPools \<Rightarrow>
                      (case routerGetCandidateRoutes env (WithSortedPools env router allPools)
                              tokenInDenom tokenOutDenom of
                         Inl msg \<Rightarrow> (Inl (Collaborator msg), s1)
                       | Inr computed \<Rightarrow>
                          if length (Routes computed) > 0 \<and> RouteCacheEnabled config then
                            (case SetRoutes env ctx (routerRepository s1) tokenInDenom tokenOutDenom
                                    computed of
                               (Some msg, repo) \<Rightarrow>
                                 (Inl (Collaborator msg), s1\<lparr>routerRepository := repo\<rparr>)
                             | (None, repo) \<Rightarrow> (Inr computed, s1\<lparr>routerRepository := repo\<rparr>))
                          else (Inr computed, s1)))
             else (Inr candidateRoutes,
                   s\<lparr>cacheHits := Inc (cacheHits s)
                        (requestURLPath, candidateRouteCacheLabel, tokenInDenom, tokenOutDenom)\<rparr>)))"

definition GetCandidateRoutes ::
  "('r, 'p, 'f, 'b, 'c) collaborators \<Rightarrow> RouterConfig \<Rightarrow> 'c \<Rightarrow> denom \<Rightarrow> denom \<Rightarrow> 'r state
     \<Rightarrow> (error + CandidateRoutes) \<times> 'r state" where
  "GetCandidateRoutes env config ctx tokenInDenom tokenOutDenom s =
     handleCandidateRoutes env config ctx (initializeRouter config) tokenInDenom tokenOutDenom s"

section \<open>Ranking: estimateDirectQuote and rankRoutesByDirectQuote\<close>

text \<open>
  The loop \<^verbatim>\<open>for i := 0; i < numRoutes; i++ { routes[i] = routesSortedByAmtOut[i].RouteImpl }\<close>,
  with \<open>n\<close> iterations left at index \<open>i\<close>. An index outside either slice panics.
\<close>

fun copyTopRoutes ::
  "nat \<Rightarrow> nat \<Rightarrow> 'b RouteImpl list \<Rightarrow> 'b RouteWithOutAmount list \<Rightarrow> error + 'b RouteImpl list" where
  "copyTopRoutes 0 i routes routesSortedByAmtOut = Inr routes"
| "copyTopRoutes (Suc n) i routes routesSortedByAmtOut =
     (if i < length routes \<and> i < length routesSortedByAmtOut
      then copyTopRoutes n (Suc i) (routes[i := RouteImpl (routesSortedByAmtOut ! i)])
             routesSortedByAmtOut
      else Inl Panic)"

text \<open>
  \<^verbatim>\<open>estimateDirectQuote\<close>. With split routes disabled only the first entry of \<open>routes\<close> is
  overwritten and the slice keeps its length; with more ranked routes than
  \<^verbatim>\<open>maxSplitRoutes\<close> the slice is cut to \<^verbatim>\<open>routes[:maxSplitRoutes]\<close>, which panics on a
  negative bound and, the capacity of the slice being taken as its length, on a bound
  beyond it.
\<close>

definition estimateDirectQuote ::
  "('r, 'p, 'f, 'b, 'c) collaborators \<Rightarrow> 'p Router \<Rightarrow> 'b RouteImpl list \<Rightarrow> Coin
     \<Rightarrow> error + 'b Quote \<times> 'b RouteImpl list" where
  "estimateDirectQuote env router routes tokenIn =
     (case estimateAndRankSingleRouteQuote env router routes tokenIn of
        Inl msg \<Rightarrow> Inl (Collaborator msg)
      | Inr (topQuote, routesSortedByAmtOut) \<Rightarrow>
         (let numRoutes = int (length routesSortedByAmtOut);
              copied =
                (if maxSplitRoutes router = 0 \<and> numRoutes > 0
                 then copyTopRoutes 1 0 routes routesSortedByAmtOut
                 else if int (length routesSortedByAmtOut) > maxSplitRoutes router
                 then (if maxSplitRoutes router < 0 \<or> maxSplitRoutes router > int (length routes)
                       then Inl Panic
                       else copyTopRoutes (nat (maxSplitRoutes router)) 0
                              (take (nat (maxSplitRoutes router)) routes) routesSortedByAmtOut)
                 else copyTopRoutes (nat numRoutes) 0 routes routesSortedByAmtOut)
          in case copied of
               Inl e \<Rightarrow> Inl e
             | Inr routes' \<Rightarrow> Inr (topQuote, routes')))"

definition rankRoutesByDirectQuote ::
  "('r, 'p, 'f, 'b, 'c) collaborators \<Rightarrow> 'c \<Rightarrow> 'p Router \<Rightarrow> CandidateRoutes \<Rightarrow> Coin \<Rightarrow> denom
     \<Rightarrow> 'r \<Rightarrow> error + 'b Quote \<times> 'b RouteImpl list" where
  "rankRoutesByDirectQuote env ctx router candidateRoutes tokenIn tokenOutDenom repo =
     (case GetAllTakerFees env ctx repo of
        Inl msg \<Rightarrow> Inl (Collaborator msg)
      | Inr takerFees \<Rightarrow>
         (case GetRoutesFromCandidates env ctx candidateRoutes takerFees (Denom tokenIn)
                 tokenOutDenom of
            Inl msg \<Rightarrow> Inl (Collaborator msg)
          | Inr routes \<Rightarrow> estimateDirectQuote env router routes tokenIn))"

section \<open>GetOptimalQuote\<close>

text \<open>The branch taken on a ranked-route cache hit: the cached value is cast to
  candidate routes and those are re-evaluated.\<close>

definition rankedRoutesFromCache ::
  "('r, 'p, 'f, 'b, 'c) collaborators \<Rightarrow> 'c \<Rightarrow> 'p Router \<Rightarrow> string \<Rightarrow> cache_value \<Rightarrow> Coin
     \<Rightarrow> denom \<Rightarrow> 'r state \<Rightarrow> (error + 'b Quote \<times> 'b RouteImpl list) \<times> 'r state" where
  "rankedRoutesFromCache env ctx router requestURLPath rankedRoutesData tokenIn tokenOutDenom s =
     (let s1 = s\<lparr>cacheHits := Inc (cacheHits s)
                    (requestURLPath, rankedRouteCacheLabel, Denom tokenIn, tokenOutDenom)\<rparr>
      in case rankedRoutesData of
           CachedOther \<Rightarrow> (Inl CastError, s1)
         | CachedCandidateRoutes rankedCandidateRoutes \<Rightarrow>
            (rankRoutesByDirectQuote env ctx router rankedCandidateRoutes tokenIn tokenOutDenom
               (routerRepository s1), s1))"

text \<open>The branch taken on a miss: candidate routes are retrieved, ranked and filtered,
  and the filtered routes are written to the ranked-route cache for five minutes.\<close>

definition rankedRoutesRecomputed ::
  "('r, 'p, 'f, 'b, 'c) collaborators \<Rightarrow> RouterConfig \<Rightarrow> 'c \<Rightarrow> 'p Router \<Rightarrow> string \<Rightarrow> string
     \<Rightarrow> Coin \<Rightarrow> denom \<Rightarrow> 'r state \<Rightarrow> (error + 'b Quote \<times> 'b RouteImpl list) \<times> 'r state" where
  "rankedRoutesRecomputed env config ctx router requestURLPath key tokenIn tokenOutDenom s =
     (let s1 = s\<lparr>cacheMisses := Inc (cacheMisses s)
                    (requestURLPath, rankedRouteCacheLabel, Denom tokenIn, tokenOutDenom)\<rparr>
      in case handleCandidateRoutes env config ctx router (Denom tokenIn) tokenOutDenom s1 of
           (Inl e, s2) \<Rightarrow> (Inl e, s2)
         | (Inr candidateRoutes, s2) \<Rightarrow>
            (case rankRoutesByDirectQuote env ctx router candidateRoutes tokenIn tokenOutDenom
                    (routerRepository s2) of
               Inl e \<Rightarrow> (Inl e, s2)
             | Inr (topSingleRouteQuote, rankedRoutes) \<Rightarrow>
                if length rankedRoutes = 0 then (Inl NoRankedRoutes, s2)
                else
                  (let rankedRoutes' = filterDuplicatePoolIDRoutes rankedRoutes in
                   if length rankedRoutes' > 0 then
                     (Inr (topSingleRouteQuote, rankedRoutes'),
                      s2\<lparr>rankedRouteCache :=
                            cache_Set (rankedRouteCache s2) key
                              (CachedCandidateRoutes (convertRankedToCandidateRoutes rankedRoutes'))
                              (time_Minute * 5)\<rparr>)
                   else (Inr (topSingleRouteQuote, rankedRoutes'), s2))))"

text \<open>The \<^verbatim>\<open>if hasRankedRoutesInCache { ... } else { ... }\<close> of \<^verbatim>\<open>GetOptimalQuote\<close>: the top
  single-route quote and the ranked routes that survive, from the cache or recomputed.\<close>

definition getRankedRoutes ::
  "('r, 'p, 'f, 'b, 'c) collaborators \<Rightarrow> RouterConfig \<Rightarrow> 'c \<Rightarrow> 'p Router \<Rightarrow> string \<Rightarrow> string
     \<Rightarrow> Coin \<Rightarrow> denom \<Rightarrow> 'r state \<Rightarrow> (error + 'b Quote \<times> 'b RouteImpl list) \<times> 'r state" where
  "getRankedRoutes env config ctx router requestURLPath key tokenIn tokenOutDenom s =
     (case cache_Get (rankedRouteCache s) key of
        Some rankedRoutesData \<Rightarrow>
          rankedRoutesFromCache env ctx router requestURLPath rankedRoutesData
            tokenIn tokenOutDenom s
      | None \<Rightarrow>
          rankedRoutesRecomputed env config ctx router requestURLPath key
            tokenIn tokenOutDenom s)"

text \<open>
  \<^verbatim>\<open>GetOptimalQuote\<close>. The cache is looked up before the request path is read from the
  context, and a missing path returns before anything is counted or written. The router
  passed on to the ranking and to the splitter is the one \<^verbatim>\<open>initializeRouter\<close> built.
  The last debug line reads \<^verbatim>\<open>finalQuote.GetRoute()[0]\<close>, which panics on a quote
  without routes.
\<close>

definition GetOptimalQuote ::
  "('r, 'p, 'f, 'b, 'c) collaborators \<Rightarrow> RouterConfig \<Rightarrow> 'c \<Rightarrow> Coin \<Rightarrow> denom \<Rightarrow> 'r state
     \<Rightarrow> (error + 'b Quote) \<times> 'r state" where
  "GetOptimalQuote env config ctx tokenIn tokenOutDenom s =
     (let tokenInOrderOfMagnitude = OrderOfMagnitude env (Amount tokenIn);
          key = formatRankedRouteCacheKey (Denom tokenIn) tokenOutDenom tokenInOrderOfMagnitude;
          router = initializeRouter config
      in case GetURLPathFromContext env ctx of
           Inl msg \<Rightarrow> (Inl (Collaborator msg), s)
         | Inr requestURLPath \<Rightarrow>
            (case getRankedRoutes env config ctx router requestURLPath key tokenIn tokenOutDenom s of
               (Inl e, s') \<Rightarrow> (Inl e, s')
             | (Inr (topSingleRouteQuote, rankedRoutes), s') \<Rightarrow>
                if length rankedRoutes = 1 then (Inr topSingleRouteQuote, s')
                else
                  (case GetSplitQuote env router rankedRoutes tokenIn of
                     Inl msg \<Rightarrow> (Inl (Collaborator msg), s')
                   | Inr topSplitQuote \<Rightarrow>
                      (let finalQuote =
                             (if GetAmountOut topSplitQuote > GetAmountOut topSingleRouteQuote
                              then topSplitQuote else topSingleRouteQuote)
                       in if GetRoute finalQuote = [] then (Inl Panic, s')
                          else if GetAmountOut finalQuote = 0 then (Inl ZeroOutput, s')
                          else (Inr finalQuote, s')))))"

section \<open>GetCustomQuote\<close>

text \<open>
  The inner loop over the pools of one route, entered only when the route has as many
  pools as \<open>poolIDs\<close> has ids: \<open>i\<close> is the index, \<open>n\<close> the number of pools of the route and
  \<open>found\<close> says whether \<^verbatim>\<open>routeIndex\<close> has been assigned. The loop breaks at the first
  mismatch; \<^verbatim>\<open>routeIndex\<close> is assigned in the iteration with \<^verbatim>\<open>i == len(routePools)-1\<close>.
\<close>

fun matchRoutePools :: "nat \<Rightarrow> nat \<Rightarrow> 'b RoutablePool list \<Rightarrow> pool_id list \<Rightarrow> bool \<Rightarrow> bool" where
  "matchRoutePools i n [] poolIDs found = found"
| "matchRoutePools i n (pool # rest) poolIDs found =
     (if GetId pool \<noteq> poolIDs ! i then found
      else matchRoutePools (Suc i) n rest poolIDs (found \<or> int i = int n - 1))"

text \<open>The outer loop; the result is \<^verbatim>\<open>routeIndex\<close>, \<open>-1\<close> when no route matched.\<close>

fun findRouteIndex :: "int \<Rightarrow> 'b RouteImpl list \<Rightarrow> pool_id list \<Rightarrow> int" where
  "findRouteIndex curRouteIndex [] poolIDs = - 1"
| "findRouteIndex curRouteIndex (route # rest) poolIDs =
     (let routePools = GetPools route in
      if length routePools \<noteq> length poolIDs then findRouteIndex (curRouteIndex + 1) rest poolIDs
      else if matchRoutePools 0 (length routePools) routePools poolIDs False then curRouteIndex
      else findRouteIndex (curRouteIndex + 1) rest poolIDs)"

definition GetCustomQuote ::
  "('r, 'p, 'f, 'b, 'c) collaborators \<Rightarrow> RouterConfig \<Rightarrow> 'c \<Rightarrow> Coin \<Rightarrow> denom \<Rightarrow> pool_id list
     \<Rightarrow> 'r state \<Rightarrow> (error + 'b Quote) \<times> 'r state" where
  "GetCustomQuote env config ctx tokenIn tokenOutDenom poolIDs s =
     (let router = initializeRouter config in
      case handleCandidateRoutes env config ctx router (Denom tokenIn) tokenOutDenom s of
        (Inl e, s1) \<Rightarrow> (Inl e, s1)
      | (Inr candidateRoutes, s1) \<Rightarrow>
         (case GetAllTakerFees env ctx (routerRepository s1) of
            Inl msg \<Rightarrow> (Inl (Collaborator msg), s1)
          | Inr takerFees \<Rightarrow>
             (case GetRoutesFromCandidates env ctx candidateRoutes takerFees (Denom tokenIn)
                     tokenOutDenom of
                Inl msg \<Rightarrow> (Inl (Collaborator msg), s1)
              | Inr routes \<Rightarrow>
                 (let routeIndex = findRouteIndex 0 routes poolIDs in
                  if routeIndex = - 1 then (Inl (NoMatchingRoute poolIDs), s1)
                  else if routeIndex \<ge> int (length routes)
                  then (Inl (RouteIndexOutOfBounds routeIndex), s1)
                  else
                    (case estimateAndRankSingleRouteQuote env router [routes ! nat routeIndex]
                            tokenIn of
                       Inl msg \<Rightarrow> (Inl (Collaborator msg), s1)
                     | Inr (quote, ranked) \<Rightarrow> (Inr quote, s1))))))"

section \<open>Specification predicates\<close>

text \<open>
  The overlap filter in the words of the specification: iterate in order and accept a
  route if and only if none of its pool ids belongs to a route accepted earlier.
\<close>

fun overlapFilterSpec :: "'b RouteImpl list \<Rightarrow> 'b RouteImpl list \<Rightarrow> 'b RouteImpl list" where
  "overlapFilterSpec accepted [] = accepted"
| "overlapFilterSpec accepted (r # rs) =
     (if \<forall>a \<in> set accepted. routePoolIDs a \<inter> routePoolIDs r = {}
      then overlapFilterSpec (accepted @ [r]) rs
      else overlapFilterSpec accepted rs)"

text \<open>Pairwise disjoint pool-id sets, for ranked routes and for candidate routes.\<close>

definition poolDisjoint :: "'b RouteImpl list \<Rightarrow> bool" where
  "poolDisjoint rs =
     (\<forall>j < length rs. \<forall>i < j. routePoolIDs (rs ! i) \<inter> routePoolIDs (rs ! j) = {})"

definition candidatesDisjoint :: "CandidateRoutes \<Rightarrow> bool" where
  "candidatesDisjoint cr =
     (\<forall>j < length (Routes cr). \<forall>i < j.
        candidatePoolIDs (Routes cr ! i) \<inter> candidatePoolIDs (Routes cr ! j) = {})"

text \<open>Every candidate-routes value held by the ranked-route cache is pairwise disjoint.\<close>

definition cacheDisjoint :: "cache \<Rightarrow> bool" where
  "cacheDisjoint c = (\<forall>key cr ttl. c key = Some (CachedCandidateRoutes cr, ttl) \<longrightarrow> candidatesDisjoint cr)"


section \<open>Test doubles\<close>

text \<open>
  Collaborators for concrete runs, after the mocks of the test suite: the route
  repository is a map from the unordered denom pair to candidate routes, the pools use
  case binds every candidate pool as it is, the route search returns \<open>found\<close>, a route is
  worth \<open>out_of\<close> and the splitter answers \<open>split_out\<close>.
\<close>

type_synonym test_repo = "denom set \<rightharpoonup> CandidateRoutes"

definition bindRoute :: "CandidateRoute \<Rightarrow> unit RouteImpl" where
  "bindRoute c =
     \<lparr>GetPools = map (\<lambda>p. \<lparr>GetId = ID p, GetTokenOutDenom = TokenOutDenom p, bound = ()\<rparr>) (Pools c)\<rparr>"

definition testEnv ::
  "CandidateRoutes \<Rightarrow> (unit RouteImpl \<Rightarrow> int) \<Rightarrow> int
     \<Rightarrow> (test_repo, unit, unit, unit, unit) collaborators" where
  "testEnv found out_of split_out =
     \<lparr>GetURLPathFromContext = (\<lambda>ctx. Inr ''/router/quote''),
      OrderOfMagnitude = (\<lambda>a. int (length (fmt_nat (nat a))) - 1),
      GetRoutes = (\<lambda>ctx repo i out.
         Inr (case repo {i, out} of None \<Rightarrow> emptyCandidateRoutes | Some cr \<Rightarrow> cr)),
      SetRoutes = (\<lambda>ctx repo i out cr. (None, repo({i, out} \<mapsto> cr))),
      GetAllTakerFees = (\<lambda>ctx repo. Inr ()),
      GetAllPools = (\<lambda>ctx. Inr []),
      GetRoutesFromCandidates = (\<lambda>ctx cr fees i out. Inr (map bindRoute (Routes cr))),
      WithSortedPools = (\<lambda>router pools. router\<lparr>sortedPools := pools\<rparr>),
      routerGetCandidateRoutes = (\<lambda>router i out. Inr found),
      estimateAndRankSingleRouteQuote = (\<lambda>router routes tokenIn.
         case map (\<lambda>r. \<lparr>RouteImpl = r, OutAmount = out_of r, InAmount = Amount tokenIn\<rparr>)
                (sort_key (\<lambda>r. - out_of r) routes) of
           [] \<Rightarrow> Inl ''no routes were provided''
         | best # rest \<Rightarrow>
             Inr (\<lparr>GetAmountIn = tokenIn, GetAmountOut = OutAmount best, GetRoute = [best]\<rparr>,
                  best # rest)),
      GetSplitQuote = (\<lambda>router routes tokenIn.
         Inr \<lparr>GetAmountIn = tokenIn, GetAmountOut = split_out,
              GetRoute = map (\<lambda>r. \<lparr>RouteImpl = r, OutAmount = 0, InAmount = 0\<rparr>) routes\<rparr>)\<rparr>"

definition testConfig :: "bool \<Rightarrow> RouterConfig" where
  "testConfig enabled =
     \<lparr>PreferredPoolIDs = [], MaxPoolsPerRoute = 4, MaxRoutes = 4, MaxSplitRoutes = 2,
      MaxSplitIterations = 10, MinOSMOLiquidity = 10000, RouteUpdateHeightInterval = 10,
      RouteCacheEnabled = enabled\<rparr>"

definition testState :: "test_repo \<Rightarrow> test_repo state" where
  "testState repo =
     \<lparr>routerRepository = repo, rankedRouteCache = Map.empty,
      cacheHits = (\<lambda>l. 0), cacheMisses = (\<lambda>l. 0)\<rparr>"

text \<open>Routes over two pools, as in the tests of the overlap filter.\<close>

definition pool1 :: "unit RoutablePool" where
  "pool1 = \<lparr>GetId = 1, GetTokenOutDenom = ''uion'', bound = ()\<rparr>"

definition pool2 :: "unit RoutablePool" where
  "pool2 = \<lparr>GetId = 2, GetTokenOutDenom = ''uion'', bound = ()\<rparr>"

definition singleRoute :: CandidateRoutes where
  "singleRoute =
     \<lparr>Routes = [\<lparr>Pools = [\<lparr>ID = 1, TokenOutDenom = ''uion''\<rparr>]\<rparr>], UniquePoolIDs = {1}\<rparr>"

definition twoRoutes :: CandidateRoutes where
  "twoRoutes =
     \<lparr>Routes = [\<lparr>Pools = [\<lparr>ID = 1, TokenOutDenom = ''uion''\<rparr>]\<rparr>,
                \<lparr>Pools = [\<lparr>ID = 2, TokenOutDenom = ''uion''\<rparr>]\<rparr>],
      UniquePoolIDs = {1, 2}\<rparr>"

text \<open>Three ranked routes, the second overlapping the first and the third; a candidate
  route without pools; and an estimate that depends on the first pool and the hops.\<close>

definition threeRoutes :: CandidateRoutes where
  "threeRoutes =
     \<lparr>Routes = [\<lparr>Pools = [\<lparr>ID = 1, TokenOutDenom = ''uion''\<rparr>]\<rparr>,
                \<lparr>Pools = [\<lparr>ID = 1, TokenOutDenom = ''uatom''\<rparr>, \<lparr>ID = 2, TokenOutDenom = ''uion''\<rparr>]\<rparr>,
                \<lparr>Pools = [\<lparr>ID = 2, TokenOutDenom = ''uion''\<rparr>]\<rparr>],
      UniquePoolIDs = {1, 2}\<rparr>"


definition byFirstPool :: "unit RouteImpl \<Rightarrow> int" where
  "byFirstPool r =
     (case GetPools r of
        [] \<Rightarrow> 0
      | p # rest \<Rightarrow> (if GetId p = 1 then 100 else 70) - 10 * int (length rest))"

definition uosmo :: "int \<Rightarrow> Coin" where
  "uosmo amount = \<lparr>Denom = ''uosmo'', Amount = amount\<rparr>"

section \<open>The overlap filter refines its specification\<close>

lemma scanRoutePools_flag:
  "fst (scanRoutePools combined ps False current) \<longleftrightarrow> GetId ` set ps \<inter> combined \<noteq> {}"
  by (induction ps arbitrary: current) (auto simp: Let_def)

lemma scanRoutePools_current:
  "\<not> fst (scanRoutePools combined ps False current) \<Longrightarrow>
   snd (scanRoutePools combined ps False current) = current \<union> GetId ` set ps"
  by (induction ps arbitrary: current) (auto simp: Let_def split: if_splits)

lemma filterLoop_step:
  "filterLoop combined filtered (r # rs) =
     (if routePoolIDs r \<inter> combined = {}
      then filterLoop (combined \<union> routePoolIDs r) (filtered @ [r]) rs
      else filterLoop combined filtered rs)"
proof (cases "scanRoutePools combined (GetPools r) False {}")
  case (Pair b current)
  have b: "b \<longleftrightarrow> \<not> routePoolIDs r \<inter> combined = {}"
    using scanRoutePools_flag [of combined "GetPools r" "{}"] Pair
    by (simp add: routePoolIDs_def)
  have "\<not> b \<Longrightarrow> current = routePoolIDs r"
    using scanRoutePools_current [of combined "GetPools r" "{}"] Pair
    by (simp add: routePoolIDs_def)
  with b Pair show ?thesis by (cases b) auto
qed

lemma filterLoop_spec:
  "combined = (\<Union>a \<in> set filtered. routePoolIDs a) \<Longrightarrow>
   filterLoop combined filtered rs = overlapFilterSpec filtered rs"
proof (induction rs arbitrary: combined filtered)
  case Nil
  then show ?case by simp
next
  case (Cons r rs)
  have eq: "(\<forall>a \<in> set filtered. routePoolIDs a \<inter> routePoolIDs r = {}) \<longleftrightarrow>
            routePoolIDs r \<inter> combined = {}"
    using Cons.prems by auto
  show ?case
  proof (cases "routePoolIDs r \<inter> combined = {}")
    case True
    have "combined \<union> routePoolIDs r = (\<Union>a \<in> set (filtered @ [r]). routePoolIDs a)"
      using Cons.prems by auto
    from Cons.IH [OF this] True eq show ?thesis
      by (simp add: filterLoop_step del: filterLoop.simps)
  next
    case False
    then have "overlapFilterSpec filtered (r # rs) = overlapFilterSpec filtered rs"
      using eq by (simp only: overlapFilterSpec.simps if_False)
    moreover have "filterLoop combined filtered (r # rs) = filterLoop combined filtered rs"
      using False by (simp only: filterLoop_step if_False)
    ultimately show ?thesis
      using Cons.IH [OF Cons.prems] by (simp only:)
  qed
qed

lemma filter_is_spec: "filterDuplicatePoolIDRoutes rs = overlapFilterSpec [] rs"
  by (simp add: filterDuplicatePoolIDRoutes_def filterLoop_spec)

lemma overlapFilterSpec_append:
  "overlapFilterSpec acc (xs @ ys) = overlapFilterSpec (overlapFilterSpec acc xs) ys"
  by (induction xs arbitrary: acc) auto

lemma overlapFilterSpec_subseq:
  "\<exists>ys. overlapFilterSpec acc rs = acc @ ys \<and> subseq ys rs"
proof (induction rs arbitrary: acc)
  case Nil
  then show ?case by simp
next
  case (Cons r rs)
  show ?case
  proof (cases "\<forall>a \<in> set acc. routePoolIDs a \<inter> routePoolIDs r = {}")
    case True
    from Cons.IH [of "acc @ [r]"] obtain ys
      where "overlapFilterSpec (acc @ [r]) rs = (acc @ [r]) @ ys" "subseq ys rs" by blast
    with True show ?thesis by (intro exI [of _ "r # ys"]) simp
  next
    case False
    then have step: "overlapFilterSpec acc (r # rs) = overlapFilterSpec acc rs"
      by (simp only: overlapFilterSpec.simps if_False)
    from Cons.IH [of acc] obtain ys
      where "overlapFilterSpec acc rs = acc @ ys" "subseq ys rs" by blast
    then have "overlapFilterSpec acc (r # rs) = acc @ ys"
      using step by (simp only:)
    moreover have "subseq ys (r # rs)"
      using \<open>subseq ys rs\<close> by (rule list_emb_Cons)
    ultimately show ?thesis by blast
  qed
qed

lemma poolDisjoint_snoc:
  "poolDisjoint (acc @ [r]) \<longleftrightarrow>
   poolDisjoint acc \<and> (\<forall>a \<in> set acc. routePoolIDs a \<inter> routePoolIDs r = {})"
proof
  assume d: "poolDisjoint (acc @ [r])"
  have "poolDisjoint acc"
    unfolding poolDisjoint_def
  proof (intro allI impI)
    fix j i assume "j < length acc" "i < j"
    with d [unfolded poolDisjoint_def, rule_format, of j i]
    show "routePoolIDs (acc ! i) \<inter> routePoolIDs (acc ! j) = {}"
      by (simp add: nth_append)
  qed
  moreover have "\<forall>a \<in> set acc. routePoolIDs a \<inter> routePoolIDs r = {}"
  proof
    fix a assume "a \<in> set acc"
    then obtain i where "i < length acc" "acc ! i = a"
      by (auto simp: in_set_conv_nth)
    with d [unfolded poolDisjoint_def, rule_format, of "length acc" i]
    show "routePoolIDs a \<inter> routePoolIDs r = {}"
      by (simp add: nth_append)
  qed
  ultimately show "poolDisjoint acc \<and> (\<forall>a \<in> set acc. routePoolIDs a \<inter> routePoolIDs r = {})" ..
next
  assume a: "poolDisjoint acc \<and> (\<forall>a \<in> set acc. routePoolIDs a \<inter> routePoolIDs r = {})"
  show "poolDisjoint (acc @ [r])"
    unfolding poolDisjoint_def
  proof (intro allI impI)
    fix j i assume j: "j < length (acc @ [r])" and i: "i < j"
    show "routePoolIDs ((acc @ [r]) ! i) \<inter> routePoolIDs ((acc @ [r]) ! j) = {}"
    proof (cases "j < length acc")
      case True
      with a i show ?thesis
        by (simp add: poolDisjoint_def nth_append)
    next
      case False
      with j have "j = length acc" by simp
      moreover from this i have "acc ! i \<in> set acc" by simp
      ultimately show ?thesis using a i by (simp add: nth_append)
    qed
  qed
qed

lemma overlapFilterSpec_disjoint:
  "poolDisjoint acc \<Longrightarrow> poolDisjoint (overlapFilterSpec acc rs)"
  by (induction rs arbitrary: acc) (simp_all add: poolDisjoint_snoc)

lemma filter_subseq: "subseq (filterDuplicatePoolIDRoutes rs) rs"
  using overlapFilterSpec_subseq [of "[]" rs] by (auto simp: filter_is_spec)

lemma filter_disjoint: "poolDisjoint (filterDuplicatePoolIDRoutes rs)"
proof -
  have "poolDisjoint ([] :: 'a RouteImpl list)" by (simp add: poolDisjoint_def)
  then show ?thesis by (simp add: filter_is_spec overlapFilterSpec_disjoint)
qed

lemma filter_snoc:
  "filterDuplicatePoolIDRoutes (rs @ [r]) =
     (if \<forall>a \<in> set (filterDuplicatePoolIDRoutes rs). routePoolIDs a \<inter> routePoolIDs r = {}
      then filterDuplicatePoolIDRoutes rs @ [r] else filterDuplicatePoolIDRoutes rs)"
  by (simp add: filter_is_spec overlapFilterSpec_append)

lemma filter_nonempty: "rs \<noteq> [] \<Longrightarrow> filterDuplicatePoolIDRoutes rs \<noteq> []"
proof (cases rs)
  case Nil
  assume "rs \<noteq> []" with Nil show ?thesis by simp
next
  case (Cons r rest)
  from overlapFilterSpec_subseq [of "[r]" rest] obtain ys
    where "overlapFilterSpec [r] rest = [r] @ ys" by blast
  with Cons show ?thesis by (simp add: filter_is_spec)
qed

lemma convertPools_eq:
  "convertPools ps cr uniq =
     (cr\<lparr>Pools := Pools cr @ map (\<lambda>p. \<lparr>ID = GetId p, TokenOutDenom = GetTokenOutDenom p\<rparr>) ps\<rparr>, uniq \<union> GetId ` set ps)"
  by (induction ps arbitrary: cr uniq) (auto simp: Let_def)

lemma convertLoop_eq:
  "convertLoop rs crs =
     \<lparr>Routes = Routes crs @ map (\<lambda>r. \<lparr>Pools = map (\<lambda>p. \<lparr>ID = GetId p, TokenOutDenom = GetTokenOutDenom p\<rparr>) (GetPools r)\<rparr>) rs,
      UniquePoolIDs = UniquePoolIDs crs \<union> (\<Union>r \<in> set rs. routePoolIDs r)\<rparr>"
  by (induction rs arbitrary: crs) (auto simp: convertPools_eq routePoolIDs_def)

lemma convert_eq:
  "convertRankedToCandidateRoutes rs =
     \<lparr>Routes = map (\<lambda>r. \<lparr>Pools = map (\<lambda>p. \<lparr>ID = GetId p, TokenOutDenom = GetTokenOutDenom p\<rparr>) (GetPools r)\<rparr>) rs,
      UniquePoolIDs = (\<Union>r \<in> set rs. routePoolIDs r)\<rparr>"
  by (simp add: convertRankedToCandidateRoutes_def convertLoop_eq)

section \<open>Frame lemmas of the stateful operations\<close>

lemma convert_candidatePoolIDs:
  "i < length rs \<Longrightarrow>
   candidatePoolIDs (Routes (convertRankedToCandidateRoutes rs) ! i) = routePoolIDs (rs ! i)"
  by (simp add: convert_eq candidatePoolIDs_def routePoolIDs_def image_image)

lemma convert_disjoint:
  "poolDisjoint rs \<Longrightarrow> candidatesDisjoint (convertRankedToCandidateRoutes rs)"
proof -
  assume d: "poolDisjoint rs"
  have len: "length (Routes (convertRankedToCandidateRoutes rs)) = length rs"
    by (simp add: convert_eq)
  show ?thesis
    unfolding candidatesDisjoint_def len
  proof (intro allI impI)
    fix j i assume "j < length rs" "i < j"
    with d show "candidatePoolIDs (Routes (convertRankedToCandidateRoutes rs) ! i) \<inter>
                 candidatePoolIDs (Routes (convertRankedToCandidateRoutes rs) ! j) = {}"
      by (simp add: convert_candidatePoolIDs poolDisjoint_def)
  qed
qed

lemma convert_filter_disjoint:
  "candidatesDisjoint (convertRankedToCandidateRoutes (filterDuplicatePoolIDRoutes rs))"
  by (rule convert_disjoint) (rule filter_disjoint)

lemma handle_cache:
  "rankedRouteCache (snd (handleCandidateRoutes env config ctx router i out s)) = rankedRouteCache s"
  by (simp add: handleCandidateRoutes_def Let_def split: sum.splits prod.splits option.splits)

lemma handle_disabled_repo:
  "\<not> RouteCacheEnabled config \<Longrightarrow>
   routerRepository (snd (handleCandidateRoutes env config ctx router i out s)) = routerRepository s"
  by (simp add: handleCandidateRoutes_def Let_def split: sum.splits prod.splits option.splits)

lemma fromCache_frame:
  "routerRepository (snd (rankedRoutesFromCache env ctx router path d tokenIn out s)) = routerRepository s \<and>
   rankedRouteCache (snd (rankedRoutesFromCache env ctx router path d tokenIn out s)) = rankedRouteCache s"
  by (simp add: rankedRoutesFromCache_def Let_def split: cache_value.splits)

lemma recomputed_repo:
  "\<not> RouteCacheEnabled config \<Longrightarrow>
   routerRepository (snd (rankedRoutesRecomputed env config ctx router path key tokenIn out s)) = routerRepository s"
proof -
  assume d: "\<not> RouteCacheEnabled config"
  let ?s1 = "s\<lparr>cacheMisses := Inc (cacheMisses s) (path, rankedRouteCacheLabel, Denom tokenIn, out)\<rparr>"
  obtain r s2 where h: "handleCandidateRoutes env config ctx router (Denom tokenIn) out ?s1 = (r, s2)"
    by (cases "handleCandidateRoutes env config ctx router (Denom tokenIn) out ?s1")
  from handle_disabled_repo [OF d, of env ctx router "Denom tokenIn" out ?s1] h
  have "routerRepository s2 = routerRepository s" by simp
  with h show ?thesis
    by (simp add: rankedRoutesRecomputed_def Let_def split: sum.splits prod.splits)
qed

lemma recomputed_cache:
  "rankedRouteCache (snd (rankedRoutesRecomputed env config ctx router path key tokenIn out s)) = rankedRouteCache s \<or>
   (\<exists>cr. candidatesDisjoint cr \<and>
      rankedRouteCache (snd (rankedRoutesRecomputed env config ctx router path key tokenIn out s)) =
      (rankedRouteCache s)(key \<mapsto> (CachedCandidateRoutes cr, time_Minute * 5)))"
proof -
  let ?s1 = "s\<lparr>cacheMisses := Inc (cacheMisses s) (path, rankedRouteCacheLabel, Denom tokenIn, out)\<rparr>"
  obtain r s2 where h: "handleCandidateRoutes env config ctx router (Denom tokenIn) out ?s1 = (r, s2)"
    by (cases "handleCandidateRoutes env config ctx router (Denom tokenIn) out ?s1")
  from handle_cache [of env config ctx router "Denom tokenIn" out ?s1] h
  have c: "rankedRouteCache s2 = rankedRouteCache s" by simp
  show ?thesis
  proof (cases r)
    case (Inl e)
    with h c show ?thesis by (simp add: rankedRoutesRecomputed_def Let_def)
  next
    case (Inr candidateRoutes)
    show ?thesis
    proof (cases "rankRoutesByDirectQuote env ctx router candidateRoutes tokenIn out (routerRepository s2)")
      case (Inl e)
      with h c Inr show ?thesis by (simp add: rankedRoutesRecomputed_def Let_def)
    next
      case rk: (Inr res)
      obtain top ranked where res: "res = (top, ranked)" by (cases res)
      show ?thesis
      proof (cases "ranked = []")
        case True
        with h c Inr rk res show ?thesis by (simp add: rankedRoutesRecomputed_def Let_def)
      next
        case False
        then have "filterDuplicatePoolIDRoutes ranked \<noteq> []" by (rule filter_nonempty)
        with h c Inr rk res False
        have "rankedRouteCache (snd (rankedRoutesRecomputed env config ctx router path key tokenIn out s)) =
          (rankedRouteCache s)(key \<mapsto>
             (CachedCandidateRoutes (convertRankedToCandidateRoutes (filterDuplicatePoolIDRoutes ranked)),
              time_Minute * 5))"
          by (simp add: rankedRoutesRecomputed_def cache_Set_def Let_def)
        moreover have "candidatesDisjoint (convertRankedToCandidateRoutes (filterDuplicatePoolIDRoutes ranked))"
          by (rule convert_filter_disjoint)
        ultimately show ?thesis by blast
      qed
    qed
  qed
qed

lemma GetOptimalQuote_state:
  "snd (GetOptimalQuote env config ctx tokenIn out s) = s \<or>
   (\<exists>path. GetURLPathFromContext env ctx = Inr path \<and>
      snd (GetOptimalQuote env config ctx tokenIn out s) =
      snd (getRankedRoutes env config ctx (initializeRouter config) path
             (formatRankedRouteCacheKey (Denom tokenIn) out (OrderOfMagnitude env (Amount tokenIn)))
             tokenIn out s))"
  by (simp add: GetOptimalQuote_def Let_def split: sum.splits prod.splits)

lemma getRanked_repo:
  "\<not> RouteCacheEnabled config \<Longrightarrow>
   routerRepository (snd (getRankedRoutes env config ctx router path key tokenIn out s)) = routerRepository s"
  by (simp add: getRankedRoutes_def fromCache_frame recomputed_repo split: option.splits)

lemma getRanked_cache:
  "rankedRouteCache (snd (getRankedRoutes env config ctx router path key tokenIn out s)) = rankedRouteCache s \<or>
   (cache_Get (rankedRouteCache s) key = None \<and>
    (\<exists>cr. candidatesDisjoint cr \<and>
      rankedRouteCache (snd (getRankedRoutes env config ctx router path key tokenIn out s)) =
      (rankedRouteCache s)(key \<mapsto> (CachedCandidateRoutes cr, time_Minute * 5))))"
proof (cases "cache_Get (rankedRouteCache s) key")
  case None
  with recomputed_cache [of env config ctx router path key tokenIn out s]
  show ?thesis by (simp add: getRankedRoutes_def)
next
  case (Some d)
  then show ?thesis by (simp add: getRankedRoutes_def fromCache_frame)
qed

lemma GetOptimalQuote_repo:
  assumes "\<not> RouteCacheEnabled config"
  shows "routerRepository (snd (GetOptimalQuote env config ctx tokenIn out s)) = routerRepository s"
proof -
  from GetOptimalQuote_state [of env config ctx tokenIn out s]
  show ?thesis
  proof
    assume "snd (GetOptimalQuote env config ctx tokenIn out s) = s"
    then show ?thesis by simp
  next
    assume "\<exists>path. GetURLPathFromContext env ctx = Inr path \<and>
      snd (GetOptimalQuote env config ctx tokenIn out s) =
      snd (getRankedRoutes env config ctx (initializeRouter config) path
             (formatRankedRouteCacheKey (Denom tokenIn) out (OrderOfMagnitude env (Amount tokenIn)))
             tokenIn out s)"
    then obtain path where "snd (GetOptimalQuote env config ctx tokenIn out s) =
      snd (getRankedRoutes env config ctx (initializeRouter config) path
             (formatRankedRouteCacheKey (Denom tokenIn) out (OrderOfMagnitude env (Amount tokenIn)))
             tokenIn out s)" by blast
    then show ?thesis by (simp only: getRanked_repo [OF assms])
  qed
qed

lemma GetOptimalQuote_cache:
  "rankedRouteCache (snd (GetOptimalQuote env config ctx tokenIn out s)) = rankedRouteCache s \<or>
   (cache_Get (rankedRouteCache s)
      (formatRankedRouteCacheKey (Denom tokenIn) out (OrderOfMagnitude env (Amount tokenIn))) = None \<and>
    (\<exists>cr. candidatesDisjoint cr \<and>
      rankedRouteCache (snd (GetOptimalQuote env config ctx tokenIn out s)) =
      (rankedRouteCache s)
        (formatRankedRouteCacheKey (Denom tokenIn) out (OrderOfMagnitude env (Amount tokenIn)) \<mapsto>
         (CachedCandidateRoutes cr, time_Minute * 5))))"
proof -
  from GetOptimalQuote_state [of env config ctx tokenIn out s]
  show ?thesis
  proof
    assume "snd (GetOptimalQuote env config ctx tokenIn out s) = s"
    then show ?thesis by simp
  next
    assume "\<exists>path. GetURLPathFromContext env ctx = Inr path \<and>
      snd (GetOptimalQuote env config ctx tokenIn out s) =
      snd (getRankedRoutes env config ctx (initializeRouter config) path
             (formatRankedRouteCacheKey (Denom tokenIn) out (OrderOfMagnitude env (Amount tokenIn)))
             tokenIn out s)"
    then obtain path where "snd (GetOptimalQuote env config ctx tokenIn out s) =
      snd (getRankedRoutes env config ctx (initializeRouter config) path
             (formatRankedRouteCacheKey (Denom tokenIn) out (OrderOfMagnitude env (Amount tokenIn)))
             tokenIn out s)" by blast
    then show ?thesis by (simp only: getRanked_cache)
  qed
qed

section \<open>The tail of GetOptimalQuote\<close>

lemma GetOptimalQuote_tail:
  assumes path: "GetURLPathFromContext env ctx = Inr requestURLPath"
    and ranked: "getRankedRoutes env config ctx (initializeRouter config) requestURLPath
                   (formatRankedRouteCacheKey (Denom tokenIn) tokenOutDenom
                      (OrderOfMagnitude env (Amount tokenIn)))
                   tokenIn tokenOutDenom s = (Inr (topSingleRouteQuote, rankedRoutes), s')"
  shows "GetOptimalQuote env config ctx tokenIn tokenOutDenom s =
           (if length rankedRoutes = 1 then (Inr topSingleRouteQuote, s')
            else
              (case GetSplitQuote env (initializeRouter config) rankedRoutes tokenIn of
                 Inl msg \<Rightarrow> (Inl (Collaborator msg), s')
               | Inr topSplitQuote \<Rightarrow>
                  (let finalQuote =
                         (if GetAmountOut topSplitQuote > GetAmountOut topSingleRouteQuote
                          then topSplitQuote else topSingleRouteQuote)
                   in if GetRoute finalQuote = [] then (Inl Panic, s')
                      else if GetAmountOut finalQuote = 0 then (Inl ZeroOutput, s')
                      else (Inr finalQuote, s'))))"
  using path ranked by (simp add: GetOptimalQuote_def Let_def)

lemma GetOptimalQuote_checked_path_nonzero:
  assumes path: "GetURLPathFromContext env ctx = Inr requestURLPath"
    and ranked: "getRankedRoutes env config ctx (initializeRouter config) requestURLPath
                   (formatRankedRouteCacheKey (Denom tokenIn) tokenOutDenom
                      (OrderOfMagnitude env (Amount tokenIn)))
                   tokenIn tokenOutDenom s = (Inr (topSingleRouteQuote, rankedRoutes), s')"
    and more: "length rankedRoutes \<noteq> 1"
    and ok: "fst (GetOptimalQuote env config ctx tokenIn tokenOutDenom s) = Inr q"
  shows "GetAmountOut q \<noteq> 0"
  using ok more unfolding GetOptimalQuote_tail [OF path ranked]
  by (auto simp: Let_def split: sum.splits if_splits)

section \<open>The route search of GetCustomQuote\<close>






section \<open>Evaluating the test doubles\<close>

lemma copyTopRoutes_numeral:
  "copyTopRoutes (numeral k) i routes ranked =
     (if i < length routes \<and> i < length ranked
      then copyTopRoutes (pred_numeral k) (Suc i) (routes[i := RouteImpl (ranked ! i)]) ranked
      else Inl Panic)"
  by (simp add: numeral_eq_Suc)

lemma testEnv_simps:
  "GetURLPathFromContext (testEnv found out_of split_out) ctx = Inr ''/router/quote''"
  "OrderOfMagnitude (testEnv found out_of split_out) a = int (length (fmt_nat (nat a))) - 1"
  "GetRoutes (testEnv found out_of split_out) ctx repo i out =
     Inr (case repo {i, out} of None \<Rightarrow> emptyCandidateRoutes | Some cr \<Rightarrow> cr)"
  "SetRoutes (testEnv found out_of split_out) ctx repo i out cr = (None, repo({i, out} \<mapsto> cr))"
  "GetAllTakerFees (testEnv found out_of split_out) ctx repo = Inr ()"
  "GetAllPools (testEnv found out_of split_out) ctx = Inr []"
  "GetRoutesFromCandidates (testEnv found out_of split_out) ctx cr fees i out =
     Inr (map bindRoute (Routes cr))"
  "WithSortedPools (testEnv found out_of split_out) router pools = router\<lparr>sortedPools := pools\<rparr>"
  "routerGetCandidateRoutes (testEnv found out_of split_out) router i out = Inr found"
  "estimateAndRankSingleRouteQuote (testEnv found out_of split_out) router routes tokenIn =
     (case map (\<lambda>r. \<lparr>RouteImpl = r, OutAmount = out_of r, InAmount = Amount tokenIn\<rparr>)
             (sort_key (\<lambda>r. - out_of r) routes) of
        [] \<Rightarrow> Inl ''no routes were provided''
      | best # rest \<Rightarrow>
          Inr (\<lparr>GetAmountIn = tokenIn, GetAmountOut = OutAmount best, GetRoute = [best]\<rparr>,
               best # rest))"
  "GetSplitQuote (testEnv found out_of split_out) router routes tokenIn =
     Inr \<lparr>GetAmountIn = tokenIn, GetAmountOut = split_out,
          GetRoute = map (\<lambda>r. \<lparr>RouteImpl = r, OutAmount = 0, InAmount = 0\<rparr>) routes\<rparr>"
  by (simp_all add: testEnv_def)

lemmas run_simps =
  GetOptimalQuote_def getRankedRoutes_def testEnv_simps testConfig_def testState_def
  singleRoute_def twoRoutes_def uosmo_def pool1_def pool2_def
  rankedRoutesRecomputed_def rankedRoutesFromCache_def handleCandidateRoutes_def
  rankRoutesByDirectQuote_def estimateDirectQuote_def cache_Get_def cache_Set_def
  filterDuplicatePoolIDRoutes_def convertRankedToCandidateRoutes_def initializeRouter_def
  NewRouter_def emptyCandidateRoutes_def bindRoute_def Let_def formatRankedRouteCacheKey_def
  fmt_d_def fmt_nat.simps time_Minute_def GetCachedCandidateRoutes_def GetCustomQuote_def
  copyTopRoutes_numeral

section \<open>Claims\<close>

subsection \<open>C1: no quote with a zero amount out\<close>

text \<open>
  C1 on the code: the check for a zero amount out stands after the early return taken
  when exactly one ranked route survives. With one candidate route whose estimate is
  zero, \<^verbatim>\<open>GetOptimalQuote\<close> returns the top single-route quote, amount out zero,
  without error.
\<close>

theorem GetOptimalQuote_single_route_zero_output:
  "fst (GetOptimalQuote (testEnv singleRoute (\<lambda>r. 0) 0) (testConfig True) () (uosmo 1) ''uion''
         (testState Map.empty))
   = Inr \<lparr>GetAmountIn = \<lparr>Denom = ''uosmo'', Amount = 1\<rparr>, GetAmountOut = 0,
          GetRoute = [\<lparr>RouteImpl = \<lparr>GetPools = [pool1]\<rparr>, OutAmount = 0, InAmount = 1\<rparr>]\<rparr>"
  by (simp add: run_simps)

subsection \<open>C2: the route cache disabled\<close>

text \<open>
  C2, as stated, fails: \<^verbatim>\<open>RouteCacheEnabled\<close> guards the candidate-route repository only.
  With the flag off \<^verbatim>\<open>GetOptimalQuote\<close> still writes the ranked-route cache on a miss: the
  run below starts from an empty ranked-route cache and ends with the ranked routes stored
  under the request's key for five minutes.
\<close>

theorem cache_disabled_counterexample:
  "RouteCacheEnabled (testConfig False) = False
   \<and> rankedRouteCache (testState Map.empty) ''uosmo/uion/0'' = None
   \<and> rankedRouteCache (snd (GetOptimalQuote (testEnv singleRoute (\<lambda>r. 100) 0) (testConfig False) ()
        (uosmo 5) ''uion'' (testState Map.empty))) ''uosmo/uion/0''
     = Some (CachedCandidateRoutes singleRoute, 300000000000)"
  by (simp add: GetOptimalQuote_def getRankedRoutes_def testEnv_def testConfig_def testState_def
      singleRoute_def uosmo_def
      rankedRoutesRecomputed_def rankedRoutesFromCache_def handleCandidateRoutes_def
      rankRoutesByDirectQuote_def estimateDirectQuote_def cache_Get_def cache_Set_def
      filterDuplicatePoolIDRoutes_def convertRankedToCandidateRoutes_def initializeRouter_def
      NewRouter_def emptyCandidateRoutes_def bindRoute_def Let_def formatRankedRouteCacheKey_def
      fmt_d_def fmt_nat.simps time_Minute_def)

text \<open>
  C2, amended: with \<^verbatim>\<open>RouteCacheEnabled = false\<close>, \<^verbatim>\<open>handleCandidateRoutes\<close> leaves both the
  candidate-route repository and the ranked-route cache as they were, and
  \<^verbatim>\<open>GetOptimalQuote\<close> leaves the candidate-route repository as it was and changes the
  ranked-route cache at no key other than the request's own key.
\<close>

theorem cache_disabled_frame:
  assumes "\<not> RouteCacheEnabled config"
  shows "routerRepository (snd (handleCandidateRoutes env config ctx router tokenInDenom tokenOutDenom s))
           = routerRepository s
       \<and> rankedRouteCache (snd (handleCandidateRoutes env config ctx router tokenInDenom tokenOutDenom s))
           = rankedRouteCache s
       \<and> routerRepository (snd (GetOptimalQuote env config ctx tokenIn tokenOutDenom s))
           = routerRepository s
       \<and> (\<forall>k. k \<noteq> formatRankedRouteCacheKey (Denom tokenIn) tokenOutDenom
                      (OrderOfMagnitude env (Amount tokenIn)) \<longrightarrow>
              rankedRouteCache (snd (GetOptimalQuote env config ctx tokenIn tokenOutDenom s)) k
                = rankedRouteCache s k)"
proof (intro conjI allI impI)
  show "routerRepository (snd (handleCandidateRoutes env config ctx router tokenInDenom tokenOutDenom s))
           = routerRepository s"
    using assms by (rule handle_disabled_repo)
  show "rankedRouteCache (snd (handleCandidateRoutes env config ctx router tokenInDenom tokenOutDenom s))
           = rankedRouteCache s"
    by (rule handle_cache)
  show "routerRepository (snd (GetOptimalQuote env config ctx tokenIn tokenOutDenom s))
           = routerRepository s"
    using assms by (rule GetOptimalQuote_repo)
  fix k
  assume k: "k \<noteq> formatRankedRouteCacheKey (Denom tokenIn) tokenOutDenom
                      (OrderOfMagnitude env (Amount tokenIn))"
  from GetOptimalQuote_cache [of env config ctx tokenIn tokenOutDenom s]
  show "rankedRouteCache (snd (GetOptimalQuote env config ctx tokenIn tokenOutDenom s)) k
                = rankedRouteCache s k"
  proof (elim disjE conjE exE)
    assume "rankedRouteCache (snd (GetOptimalQuote env config ctx tokenIn tokenOutDenom s)) = rankedRouteCache s"
    then show ?thesis by simp
  next
    fix cr
    assume "rankedRouteCache (snd (GetOptimalQuote env config ctx tokenIn tokenOutDenom s)) =
      (rankedRouteCache s)
        (formatRankedRouteCacheKey (Denom tokenIn) tokenOutDenom (OrderOfMagnitude env (Amount tokenIn)) \<mapsto>
         (CachedCandidateRoutes cr, time_Minute * 5))"
    with k show ?thesis by simp
  qed
qed

theorem cache_disabled_frame_witness:
  "RouteCacheEnabled (testConfig False) = False
   \<and> routerRepository (snd (handleCandidateRoutes (testEnv singleRoute (\<lambda>r. 100) 0) (testConfig False) ()
        (initializeRouter (testConfig False)) ''uosmo'' ''uion'' (testState Map.empty))) = Map.empty
   \<and> rankedRouteCache (snd (handleCandidateRoutes (testEnv singleRoute (\<lambda>r. 100) 0) (testConfig False) ()
        (initializeRouter (testConfig False)) ''uosmo'' ''uion'' (testState Map.empty))) = Map.empty
   \<and> routerRepository (snd (GetOptimalQuote (testEnv singleRoute (\<lambda>r. 100) 0) (testConfig False) ()
        (uosmo 5) ''uion'' (testState Map.empty))) = Map.empty
   \<and> rankedRouteCache (snd (GetOptimalQuote (testEnv singleRoute (\<lambda>r. 100) 0) (testConfig False) ()
        (uosmo 5) ''uion'' (testState Map.empty))) ''uosmo/uion/1'' = None"
proof -
  have d: "\<not> RouteCacheEnabled (testConfig False)"
    by (simp add: testConfig_def)
  have k: "''uosmo/uion/1'' \<noteq> formatRankedRouteCacheKey (Denom (uosmo 5)) ''uion''
             (OrderOfMagnitude (testEnv singleRoute (\<lambda>r. 100) 0) (Amount (uosmo 5)))"
    by (simp add: formatRankedRouteCacheKey_def uosmo_def testEnv_def fmt_d_def fmt_nat.simps)
  from cache_disabled_frame [OF d, of "testEnv singleRoute (\<lambda>r. 100) 0" "()"
         "initializeRouter (testConfig False)" "''uosmo''" "''uion''" "testState Map.empty" "uosmo 5"]
       d k
  show ?thesis
    by (simp add: testState_def)
qed

subsection \<open>C3: the overlap filter\<close>

text \<open>
  C3: \<^verbatim>\<open>filterDuplicatePoolIDRoutes\<close> is the filter of the specification. A route is
  accepted if and only if none of its pool ids occurs in a route accepted before it, and
  only accepted routes count (the ids of a rejected route are not recorded); the output
  is a subsequence of the input; any two output routes at different positions have
  disjoint pool-id sets; a route on its own is never filtered, whatever ids it repeats.
\<close>

theorem filterDuplicatePoolIDRoutes_overlap_filter:
  "filterDuplicatePoolIDRoutes rs = overlapFilterSpec [] rs
   \<and> filterDuplicatePoolIDRoutes (rs @ [r]) =
       (if \<forall>a \<in> set (filterDuplicatePoolIDRoutes rs). routePoolIDs a \<inter> routePoolIDs r = {}
        then filterDuplicatePoolIDRoutes rs @ [r] else filterDuplicatePoolIDRoutes rs)
   \<and> subseq (filterDuplicatePoolIDRoutes rs) rs
   \<and> (\<forall>i j. i < j \<and> j < length (filterDuplicatePoolIDRoutes rs) \<longrightarrow>
         routePoolIDs (filterDuplicatePoolIDRoutes rs ! i) \<inter>
         routePoolIDs (filterDuplicatePoolIDRoutes rs ! j) = {})
   \<and> filterDuplicatePoolIDRoutes [r] = [r]"
proof (intro conjI allI impI)
  show "filterDuplicatePoolIDRoutes rs = overlapFilterSpec [] rs"
    by (rule filter_is_spec)
  show "filterDuplicatePoolIDRoutes (rs @ [r]) =
       (if \<forall>a \<in> set (filterDuplicatePoolIDRoutes rs). routePoolIDs a \<inter> routePoolIDs r = {}
        then filterDuplicatePoolIDRoutes rs @ [r] else filterDuplicatePoolIDRoutes rs)"
    by (rule filter_snoc)
  show "subseq (filterDuplicatePoolIDRoutes rs) rs"
    by (rule filter_subseq)
  show "filterDuplicatePoolIDRoutes [r] = [r]"
    by (simp add: filter_is_spec)
next
  fix i j
  assume "i < j \<and> j < length (filterDuplicatePoolIDRoutes rs)"
  with filter_disjoint [of rs]
  show "routePoolIDs (filterDuplicatePoolIDRoutes rs ! i) \<inter>
        routePoolIDs (filterDuplicatePoolIDRoutes rs ! j) = {}"
    by (simp add: poolDisjoint_def)
qed

theorem filterDuplicatePoolIDRoutes_overlap_filter_witness:
  "filterDuplicatePoolIDRoutes
     [\<lparr>GetPools = [pool1]\<rparr>, \<lparr>GetPools = [pool1, pool2]\<rparr>, \<lparr>GetPools = [pool2]\<rparr>]
     = [\<lparr>GetPools = [pool1]\<rparr>, \<lparr>GetPools = [pool2]\<rparr>]
   \<and> filterDuplicatePoolIDRoutes [\<lparr>GetPools = [pool1]\<rparr>, \<lparr>GetPools = [pool1, pool2]\<rparr>]
     = [\<lparr>GetPools = [pool1]\<rparr>]
   \<and> subseq [\<lparr>GetPools = [pool1]\<rparr>]
        [\<lparr>GetPools = [pool1]\<rparr>, \<lparr>GetPools = [pool1, pool2]\<rparr>]
   \<and> filterDuplicatePoolIDRoutes [\<lparr>GetPools = [pool1, pool1]\<rparr>] = [\<lparr>GetPools = [pool1, pool1]\<rparr>]"
proof -
  have small: "filterDuplicatePoolIDRoutes [\<lparr>GetPools = [pool1]\<rparr>, \<lparr>GetPools = [pool1, pool2]\<rparr>]
     = [\<lparr>GetPools = [pool1]\<rparr>]"
    by (simp add: filterDuplicatePoolIDRoutes_def pool1_def pool2_def)
  from filterDuplicatePoolIDRoutes_overlap_filter
         [of "[\<lparr>GetPools = [pool1]\<rparr>, \<lparr>GetPools = [pool1, pool2]\<rparr>]" "\<lparr>GetPools = [pool2]\<rparr>"]
       filterDuplicatePoolIDRoutes_overlap_filter
         [of "[]" "\<lparr>GetPools = [pool1, pool1]\<rparr>"]
  show ?thesis
    by (simp add: small routePoolIDs_def pool1_def pool2_def)
qed

subsection \<open>C4: GetCachedCandidateRoutes with the route cache disabled\<close>

text \<open>
  C4, as stated, fails: with the route cache disabled \<^verbatim>\<open>GetCachedCandidateRoutes\<close> returns
  an error next to the empty value.
\<close>

theorem GetCachedCandidateRoutes_cache_disabled_counterexample:
  "RouteCacheEnabled (testConfig False) = False
   \<and> snd (fst (GetCachedCandidateRoutes (testEnv singleRoute (\<lambda>r. 100) 0) (testConfig False) ()
        ''uosmo'' ''uion'' (testState [{''uosmo'', ''uion''} \<mapsto> singleRoute])))
     = Some RouteCacheDisabled"
  by (simp add: GetCachedCandidateRoutes_def testConfig_def)

text \<open>
  C4, amended: when \<^verbatim>\<open>RouteCacheEnabled = false\<close>, \<^verbatim>\<open>GetCachedCandidateRoutes\<close> returns an
  empty candidate-routes value together with the error that the route cache is disabled;
  the result depends on no collaborator (nothing is read or recomputed) and the state,
  the route repository included, is unchanged.
\<close>

theorem GetCachedCandidateRoutes_cache_disabled:
  assumes "\<not> RouteCacheEnabled config"
  shows "GetCachedCandidateRoutes env config ctx tokenInDenom tokenOutDenom s =
           ((\<lparr>Routes = [], UniquePoolIDs = {}\<rparr>, Some RouteCacheDisabled), s)"
  using assms by (simp add: GetCachedCandidateRoutes_def emptyCandidateRoutes_def)

theorem GetCachedCandidateRoutes_cache_disabled_witness:
  "RouteCacheEnabled (testConfig False) = False
   \<and> GetCachedCandidateRoutes (testEnv singleRoute (\<lambda>r. 100) 0) (testConfig False) ()
        ''uosmo'' ''uion'' (testState [{''uosmo'', ''uion''} \<mapsto> singleRoute])
     = ((\<lparr>Routes = [], UniquePoolIDs = {}\<rparr>, Some RouteCacheDisabled),
        testState [{''uosmo'', ''uion''} \<mapsto> singleRoute])"
proof -
  have d: "\<not> RouteCacheEnabled (testConfig False)"
    by (simp add: testConfig_def)
  from d GetCachedCandidateRoutes_cache_disabled [OF d]
  show ?thesis by simp
qed

subsection \<open>C5: the better of the top single-route quote and the split quote\<close>

text \<open>
  C5: when more than one ranked route survives and the splitter answers,
  \<^verbatim>\<open>GetOptimalQuote\<close> decides on the better of the two quotes (the split quote only when it
  is strictly greater): it returns that quote unless it has no route or a zero amount
  out, and every quote it returns has as amount out the maximum of the two, hence at
  least the top single-route quote's.
\<close>

theorem GetOptimalQuote_better_of_single_and_split:
  assumes path: "GetURLPathFromContext env ctx = Inr requestURLPath"
    and ranked: "getRankedRoutes env config ctx (initializeRouter config) requestURLPath
                   (formatRankedRouteCacheKey (Denom tokenIn) tokenOutDenom
                      (OrderOfMagnitude env (Amount tokenIn)))
                   tokenIn tokenOutDenom s = (Inr (topSingleRouteQuote, rankedRoutes), s')"
    and more: "length rankedRoutes > 1"
    and split: "GetSplitQuote env (initializeRouter config) rankedRoutes tokenIn = Inr topSplitQuote"
  shows "fst (GetOptimalQuote env config ctx tokenIn tokenOutDenom s) =
           (let finalQuote =
                  (if GetAmountOut topSplitQuote > GetAmountOut topSingleRouteQuote
                   then topSplitQuote else topSingleRouteQuote)
            in if GetRoute finalQuote = [] then Inl Panic
               else if GetAmountOut finalQuote = 0 then Inl ZeroOutput
               else Inr finalQuote)
       \<and> (\<forall>q. fst (GetOptimalQuote env config ctx tokenIn tokenOutDenom s) = Inr q \<longrightarrow>
             q = (if GetAmountOut topSplitQuote > GetAmountOut topSingleRouteQuote
                  then topSplitQuote else topSingleRouteQuote)
           \<and> GetAmountOut q = max (GetAmountOut topSingleRouteQuote) (GetAmountOut topSplitQuote)
           \<and> GetAmountOut q \<ge> GetAmountOut topSingleRouteQuote)"
proof -
  have eq: "fst (GetOptimalQuote env config ctx tokenIn tokenOutDenom s) =
           (let finalQuote =
                  (if GetAmountOut topSplitQuote > GetAmountOut topSingleRouteQuote
                   then topSplitQuote else topSingleRouteQuote)
            in if GetRoute finalQuote = [] then Inl Panic
               else if GetAmountOut finalQuote = 0 then Inl ZeroOutput
               else Inr finalQuote)"
    using more split unfolding GetOptimalQuote_tail [OF path ranked]
    by (simp add: Let_def)
  moreover have "\<forall>q. fst (GetOptimalQuote env config ctx tokenIn tokenOutDenom s) = Inr q \<longrightarrow>
             q = (if GetAmountOut topSplitQuote > GetAmountOut topSingleRouteQuote
                  then topSplitQuote else topSingleRouteQuote)
           \<and> GetAmountOut q = max (GetAmountOut topSingleRouteQuote) (GetAmountOut topSplitQuote)
           \<and> GetAmountOut q \<ge> GetAmountOut topSingleRouteQuote"
    unfolding eq by (auto simp: Let_def split: if_splits)
  ultimately show ?thesis by (rule conjI)
qed

theorem GetOptimalQuote_better_of_single_and_split_witness:
  "fst (GetOptimalQuote (testEnv twoRoutes (\<lambda>r. 100) 150) (testConfig True) () (uosmo 1000) ''uion''
          (testState Map.empty))
     = Inr \<lparr>GetAmountIn = uosmo 1000, GetAmountOut = 150,
            GetRoute = [\<lparr>RouteImpl = \<lparr>GetPools = [pool1]\<rparr>, OutAmount = 0, InAmount = 0\<rparr>,
                        \<lparr>RouteImpl = \<lparr>GetPools = [pool2]\<rparr>, OutAmount = 0, InAmount = 0\<rparr>]\<rparr>
   \<and> max (100 :: int) 150 = 150"
proof -
  let ?env = "testEnv twoRoutes (\<lambda>r. 100) 150"
  let ?cfg = "testConfig True"
  let ?key = "formatRankedRouteCacheKey (Denom (uosmo 1000)) ''uion''
                (OrderOfMagnitude ?env (Amount (uosmo 1000)))"
  let ?g = "getRankedRoutes ?env ?cfg () (initializeRouter ?cfg) ''/router/quote'' ?key
              (uosmo 1000) ''uion'' (testState Map.empty)"
  let ?top = "\<lparr>GetAmountIn = uosmo 1000, GetAmountOut = 100,
               GetRoute = [\<lparr>RouteImpl = \<lparr>GetPools = [pool1]\<rparr>, OutAmount = 100, InAmount = 1000\<rparr>]\<rparr>"
  let ?ranked = "[\<lparr>GetPools = [pool1]\<rparr>, \<lparr>GetPools = [pool2]\<rparr>]"
  let ?split = "\<lparr>GetAmountIn = uosmo 1000, GetAmountOut = 150,
            GetRoute = [\<lparr>RouteImpl = \<lparr>GetPools = [pool1]\<rparr>, OutAmount = 0, InAmount = 0\<rparr>,
                        \<lparr>RouteImpl = \<lparr>GetPools = [pool2]\<rparr>, OutAmount = 0, InAmount = 0\<rparr>]\<rparr>"
  have path: "GetURLPathFromContext ?env () = Inr ''/router/quote''"
    by (simp add: testEnv_simps)
  have ranked: "?g = (Inr (?top, ?ranked), snd ?g)"
    by (simp add: run_simps)
  have more: "length ?ranked > 1" by simp
  have split: "GetSplitQuote ?env (initializeRouter ?cfg) ?ranked (uosmo 1000) = Inr ?split"
    by (simp add: testEnv_simps)
  note inst = GetOptimalQuote_better_of_single_and_split [OF path ranked more split]
  have "fst (GetOptimalQuote ?env ?cfg () (uosmo 1000) ''uion'' (testState Map.empty)) = Inr ?split"
    by (rule trans [OF inst [THEN conjunct1]]) (simp add: Let_def)
  then show ?thesis by simp
qed

subsection \<open>C6: the candidate-route cache policy\<close>

text \<open>
  C6: with the request path available, if the route cache is enabled and the repository
  holds non-empty candidate routes for the pair, \<^verbatim>\<open>handleCandidateRoutes\<close> returns exactly
  those and changes only the hit counter (the result mentions neither the pools, nor the
  route search, nor \<^verbatim>\<open>SetRoutes\<close>); on a miss (cache disabled, or empty cached routes) with
  pools and search answering, it returns the computed routes and calls \<^verbatim>\<open>SetRoutes\<close> on
  the repository if and only if the computed routes are non-empty and the route cache is
  enabled, leaving the repository as it was otherwise.
\<close>

theorem handleCandidateRoutes_cache_policy:
  assumes path: "GetURLPathFromContext env ctx = Inr requestURLPath"
  shows
   "(RouteCacheEnabled config \<and>
     GetRoutes env ctx (routerRepository s) tokenInDenom tokenOutDenom = Inr cached \<and>
     Routes cached \<noteq> [] \<longrightarrow>
       handleCandidateRoutes env config ctx router tokenInDenom tokenOutDenom s =
         (Inr cached,
          s\<lparr>cacheHits := Inc (cacheHits s)
               (requestURLPath, candidateRouteCacheLabel, tokenInDenom, tokenOutDenom)\<rparr>))
    \<and> ((\<not> RouteCacheEnabled config \<or>
         GetRoutes env ctx (routerRepository s) tokenInDenom tokenOutDenom = Inr cached \<and>
         Routes cached = []) \<and>
        GetAllPools env ctx = Inr allPools \<and>
        routerGetCandidateRoutes env (WithSortedPools env router allPools) tokenInDenom tokenOutDenom
          = Inr computed \<longrightarrow>
          (if Routes computed \<noteq> [] \<and> RouteCacheEnabled config
           then routerRepository
                  (snd (handleCandidateRoutes env config ctx router tokenInDenom tokenOutDenom s))
                  = snd (SetRoutes env ctx (routerRepository s) tokenInDenom tokenOutDenom computed)
              \<and> fst (handleCandidateRoutes env config ctx router tokenInDenom tokenOutDenom s)
                  = (case fst (SetRoutes env ctx (routerRepository s) tokenInDenom tokenOutDenom
                                 computed) of
                       None \<Rightarrow> Inr computed
                     | Some msg \<Rightarrow> Inl (Collaborator msg))
           else handleCandidateRoutes env config ctx router tokenInDenom tokenOutDenom s =
                  (Inr computed,
                   s\<lparr>cacheMisses := Inc (cacheMisses s)
                        (requestURLPath, candidateRouteCacheLabel, tokenInDenom, tokenOutDenom)\<rparr>)))"
proof (intro conjI impI)
  assume "RouteCacheEnabled config \<and>
     GetRoutes env ctx (routerRepository s) tokenInDenom tokenOutDenom = Inr cached \<and>
     Routes cached \<noteq> []"
  with path show "handleCandidateRoutes env config ctx router tokenInDenom tokenOutDenom s =
         (Inr cached,
          s\<lparr>cacheHits := Inc (cacheHits s)
               (requestURLPath, candidateRouteCacheLabel, tokenInDenom, tokenOutDenom)\<rparr>)"
    by (simp add: handleCandidateRoutes_def)
next
  assume a: "(\<not> RouteCacheEnabled config \<or>
         GetRoutes env ctx (routerRepository s) tokenInDenom tokenOutDenom = Inr cached \<and>
         Routes cached = []) \<and>
        GetAllPools env ctx = Inr allPools \<and>
        routerGetCandidateRoutes env (WithSortedPools env router allPools) tokenInDenom tokenOutDenom
          = Inr computed"
  obtain err repo where set: "SetRoutes env ctx (routerRepository s) tokenInDenom tokenOutDenom computed = (err, repo)"
    by (cases "SetRoutes env ctx (routerRepository s) tokenInDenom tokenOutDenom computed")
  show "if Routes computed \<noteq> [] \<and> RouteCacheEnabled config
           then routerRepository
                  (snd (handleCandidateRoutes env config ctx router tokenInDenom tokenOutDenom s))
                  = snd (SetRoutes env ctx (routerRepository s) tokenInDenom tokenOutDenom computed)
              \<and> fst (handleCandidateRoutes env config ctx router tokenInDenom tokenOutDenom s)
                  = (case fst (SetRoutes env ctx (routerRepository s) tokenInDenom tokenOutDenom
                                 computed) of
                       None \<Rightarrow> Inr computed
                     | Some msg \<Rightarrow> Inl (Collaborator msg))
           else handleCandidateRoutes env config ctx router tokenInDenom tokenOutDenom s =
                  (Inr computed,
                   s\<lparr>cacheMisses := Inc (cacheMisses s)
                        (requestURLPath, candidateRouteCacheLabel, tokenInDenom, tokenOutDenom)\<rparr>)"
  proof (cases "RouteCacheEnabled config")
    case True
    with a path set show ?thesis
      by (cases err) (simp_all add: handleCandidateRoutes_def Let_def)
  next
    case False
    with a path show ?thesis
      by (simp add: handleCandidateRoutes_def Let_def emptyCandidateRoutes_def)
  qed
qed

theorem handleCandidateRoutes_cache_policy_witness:
  "handleCandidateRoutes (testEnv twoRoutes (\<lambda>r. 100) 0) (testConfig True) ()
       (initializeRouter (testConfig True)) ''uosmo'' ''uion'' (testState [{''uosmo'', ''uion''} \<mapsto> singleRoute])
     = (Inr singleRoute,
        (testState [{''uosmo'', ''uion''} \<mapsto> singleRoute])
          \<lparr>cacheHits := Inc (\<lambda>l. 0) (''/router/quote'', candidateRouteCacheLabel, ''uosmo'', ''uion'')\<rparr>)
   \<and> fst (handleCandidateRoutes (testEnv singleRoute (\<lambda>r. 100) 0) (testConfig True) ()
       (initializeRouter (testConfig True)) ''uosmo'' ''uion'' (testState Map.empty)) = Inr singleRoute
   \<and> routerRepository (snd (handleCandidateRoutes (testEnv singleRoute (\<lambda>r. 100) 0) (testConfig True) ()
       (initializeRouter (testConfig True)) ''uosmo'' ''uion'' (testState Map.empty)))
     = [{''uosmo'', ''uion''} \<mapsto> singleRoute]
   \<and> handleCandidateRoutes (testEnv singleRoute (\<lambda>r. 100) 0) (testConfig False) ()
       (initializeRouter (testConfig False)) ''uosmo'' ''uion'' (testState [{''uosmo'', ''uion''} \<mapsto> twoRoutes])
     = (Inr singleRoute,
        (testState [{''uosmo'', ''uion''} \<mapsto> twoRoutes])
          \<lparr>cacheMisses := Inc (\<lambda>l. 0) (''/router/quote'', candidateRouteCacheLabel, ''uosmo'', ''uion'')\<rparr>)"
proof -
  have path: "\<And>found. GetURLPathFromContext (testEnv found (\<lambda>r. 100) 0) () = Inr ''/router/quote''"
    by (simp add: testEnv_def)
  note hit = handleCandidateRoutes_cache_policy [OF path [of twoRoutes],
      where config = "testConfig True"
        and s = "testState [{''uosmo'', ''uion''} \<mapsto> singleRoute]"
        and tokenInDenom = "''uosmo''" and tokenOutDenom = "''uion''" and cached = singleRoute
        and router = "initializeRouter (testConfig True)" and allPools = "[]"
        and computed = twoRoutes, THEN conjunct1]
  note miss = handleCandidateRoutes_cache_policy [OF path [of singleRoute],
      where config = "testConfig True"
        and s = "testState Map.empty"
        and tokenInDenom = "''uosmo''" and tokenOutDenom = "''uion''"
        and cached = emptyCandidateRoutes
        and router = "initializeRouter (testConfig True)" and allPools = "[]"
        and computed = singleRoute, THEN conjunct2]
  note off = handleCandidateRoutes_cache_policy [OF path [of singleRoute],
      where config = "testConfig False"
        and s = "testState [{''uosmo'', ''uion''} \<mapsto> twoRoutes]"
        and tokenInDenom = "''uosmo''" and tokenOutDenom = "''uion''" and cached = twoRoutes
        and router = "initializeRouter (testConfig False)" and allPools = "[]"
        and computed = singleRoute, THEN conjunct2]
  from hit miss off show ?thesis
    by (simp add: testEnv_def testConfig_def testState_def singleRoute_def twoRoutes_def
          emptyCandidateRoutes_def)
qed

subsection \<open>C7: the write to the ranked-route cache\<close>

text \<open>
  C7: on a ranked-route cache miss, when candidate routes and ranking succeed and the
  overlap-filtered ranked routes are non-empty, \<^verbatim>\<open>GetOptimalQuote\<close> leaves the ranked-route
  cache with the filtered routes, converted back to candidate routes, stored under the
  key of (token-in denom, token-out denom, order of magnitude of the amount in) with a
  time to live of five minutes, whatever the outcome of the rest of the call.
\<close>

theorem GetOptimalQuote_caches_ranked_routes:
  assumes path: "GetURLPathFromContext env ctx = Inr requestURLPath"
    and miss: "cache_Get (rankedRouteCache s)
                 (formatRankedRouteCacheKey (Denom tokenIn) tokenOutDenom
                    (OrderOfMagnitude env (Amount tokenIn))) = None"
    and handle: "handleCandidateRoutes env config ctx (initializeRouter config) (Denom tokenIn)
                   tokenOutDenom
                   (s\<lparr>cacheMisses := Inc (cacheMisses s)
                         (requestURLPath, rankedRouteCacheLabel, Denom tokenIn, tokenOutDenom)\<rparr>)
                 = (Inr candidateRoutes, s2)"
    and rank: "rankRoutesByDirectQuote env ctx (initializeRouter config) candidateRoutes tokenIn
                 tokenOutDenom (routerRepository s2) = Inr (topSingleRouteQuote, rankedRoutes)"
    and nonempty: "filterDuplicatePoolIDRoutes rankedRoutes \<noteq> []"
  shows "rankedRouteCache (snd (GetOptimalQuote env config ctx tokenIn tokenOutDenom s)) =
           cache_Set (rankedRouteCache s)
             (formatRankedRouteCacheKey (Denom tokenIn) tokenOutDenom
                (OrderOfMagnitude env (Amount tokenIn)))
             (CachedCandidateRoutes
                (convertRankedToCandidateRoutes (filterDuplicatePoolIDRoutes rankedRoutes)))
             (5 * time_Minute)
       \<and> cache_Get (rankedRouteCache (snd (GetOptimalQuote env config ctx tokenIn tokenOutDenom s)))
             (formatRankedRouteCacheKey (Denom tokenIn) tokenOutDenom
                (OrderOfMagnitude env (Amount tokenIn)))
           = Some (CachedCandidateRoutes
                (convertRankedToCandidateRoutes (filterDuplicatePoolIDRoutes rankedRoutes)))
       \<and> 5 * time_Minute = 300 * 1000000000"
proof -
  let ?key = "formatRankedRouteCacheKey (Denom tokenIn) tokenOutDenom
                (OrderOfMagnitude env (Amount tokenIn))"
  let ?v = "CachedCandidateRoutes
              (convertRankedToCandidateRoutes (filterDuplicatePoolIDRoutes rankedRoutes))"
  from handle_cache [of env config ctx "initializeRouter config" "Denom tokenIn" tokenOutDenom
         "s\<lparr>cacheMisses := Inc (cacheMisses s)
               (requestURLPath, rankedRouteCacheLabel, Denom tokenIn, tokenOutDenom)\<rparr>"] handle
  have c: "rankedRouteCache s2 = rankedRouteCache s" by simp
  from nonempty have ne: "rankedRoutes \<noteq> []"
    by (auto simp: filterDuplicatePoolIDRoutes_def)
  have g: "getRankedRoutes env config ctx (initializeRouter config) requestURLPath ?key
             tokenIn tokenOutDenom s =
           (Inr (topSingleRouteQuote, filterDuplicatePoolIDRoutes rankedRoutes),
            s2\<lparr>rankedRouteCache := cache_Set (rankedRouteCache s) ?key ?v (time_Minute * 5)\<rparr>)"
    using miss handle rank nonempty ne c
    by (simp add: getRankedRoutes_def rankedRoutesRecomputed_def Let_def)
  have "snd (GetOptimalQuote env config ctx tokenIn tokenOutDenom s) =
          s2\<lparr>rankedRouteCache := cache_Set (rankedRouteCache s) ?key ?v (time_Minute * 5)\<rparr>"
    unfolding GetOptimalQuote_tail [OF path g]
    by (simp add: Let_def split: sum.splits)
  then show ?thesis
    by (simp add: cache_Get_def cache_Set_def time_Minute_def mult.commute)
qed

theorem GetOptimalQuote_caches_ranked_routes_witness:
  "rankedRouteCache
     (snd (GetOptimalQuote (testEnv threeRoutes byFirstPool 0) ((testConfig True)\<lparr>MaxSplitRoutes := 3\<rparr>) ()
             (uosmo 1234567) ''uion'' (testState Map.empty)))
   = [''uosmo/uion/6'' \<mapsto>
        (CachedCandidateRoutes
           \<lparr>Routes = [\<lparr>Pools = [\<lparr>ID = 1, TokenOutDenom = ''uion''\<rparr>]\<rparr>,
                      \<lparr>Pools = [\<lparr>ID = 2, TokenOutDenom = ''uion''\<rparr>]\<rparr>],
            UniquePoolIDs = {1, 2}\<rparr>, 300000000000)]"
proof -
  let ?env = "testEnv threeRoutes byFirstPool 0"
  let ?cfg = "(testConfig True)\<lparr>MaxSplitRoutes := 3\<rparr>"
  let ?s = "testState Map.empty"
  let ?s1 = "?s\<lparr>cacheMisses := Inc (cacheMisses ?s)
               (''/router/quote'', rankedRouteCacheLabel, Denom (uosmo 1234567), ''uion'')\<rparr>"
  let ?h = "handleCandidateRoutes ?env ?cfg () (initializeRouter ?cfg) (Denom (uosmo 1234567)) ''uion'' ?s1"
  let ?top = "\<lparr>GetAmountIn = uosmo 1234567, GetAmountOut = 100,
               GetRoute = [\<lparr>RouteImpl = \<lparr>GetPools = [pool1]\<rparr>, OutAmount = 100, InAmount = 1234567\<rparr>]\<rparr>"
  let ?ranked = "[\<lparr>GetPools = [pool1]\<rparr>,
                  \<lparr>GetPools = [\<lparr>GetId = 1, GetTokenOutDenom = ''uatom'', bound = ()\<rparr>, pool2]\<rparr>,
                  \<lparr>GetPools = [pool2]\<rparr>]"
  have path: "GetURLPathFromContext ?env () = Inr ''/router/quote''"
    by (simp add: testEnv_simps)
  have miss: "cache_Get (rankedRouteCache ?s)
                (formatRankedRouteCacheKey (Denom (uosmo 1234567)) ''uion''
                   (OrderOfMagnitude ?env (Amount (uosmo 1234567)))) = None"
    by (simp add: cache_Get_def testState_def)
  have handle: "?h = (Inr threeRoutes, snd ?h)"
    by (simp add: run_simps threeRoutes_def)
  have rank: "rankRoutesByDirectQuote ?env () (initializeRouter ?cfg) threeRoutes (uosmo 1234567)
                ''uion'' (routerRepository (snd ?h)) = Inr (?top, ?ranked)"
    by (simp add: run_simps threeRoutes_def byFirstPool_def)
  have filtered: "filterDuplicatePoolIDRoutes ?ranked = [\<lparr>GetPools = [pool1]\<rparr>, \<lparr>GetPools = [pool2]\<rparr>]"
    by (simp add: filterDuplicatePoolIDRoutes_def pool1_def pool2_def)
  then have nonempty: "filterDuplicatePoolIDRoutes ?ranked \<noteq> []" by simp
  show ?thesis
    by (rule trans [OF GetOptimalQuote_caches_ranked_routes [OF path miss handle rank nonempty,
                         THEN conjunct1]])
       (simp add: filterDuplicatePoolIDRoutes_def convertRankedToCandidateRoutes_def cache_Set_def time_Minute_def
          formatRankedRouteCacheKey_def fmt_d_def fmt_nat.simps testEnv_simps uosmo_def testState_def
          pool1_def pool2_def insert_commute)
qed

subsection \<open>C8: GetCustomQuote\<close>




subsection \<open>C9: conversion of ranked routes to candidate routes\<close>

text \<open>
  C9: \<^verbatim>\<open>convertRankedToCandidateRoutes\<close> keeps the number of routes, the \<open>i\<close>-th output
  route has the same ordered sequence of (pool id, token-out denom) pairs as the \<open>i\<close>-th
  input route, and \<^verbatim>\<open>UniquePoolIDs\<close> is exactly the union of the pool ids of all input
  routes.
\<close>

theorem convertRankedToCandidateRoutes_structure:
  "length (Routes (convertRankedToCandidateRoutes rs)) = length rs \<and>
   (\<forall>i < length rs.
      map (\<lambda>p. (ID p, TokenOutDenom p)) (Pools (Routes (convertRankedToCandidateRoutes rs) ! i)) =
      map (\<lambda>p. (GetId p, GetTokenOutDenom p)) (GetPools (rs ! i))) \<and>
   UniquePoolIDs (convertRankedToCandidateRoutes rs) = (\<Union>r \<in> set rs. GetId ` set (GetPools r))"
  by (simp add: convert_eq routePoolIDs_def comp_def)

theorem convertRankedToCandidateRoutes_structure_witness:
  "length (Routes (convertRankedToCandidateRoutes [\<lparr>GetPools = [pool1, pool2]\<rparr>, \<lparr>GetPools = [pool2]\<rparr>])) = 2
   \<and> map (\<lambda>p. (ID p, TokenOutDenom p))
        (Pools (Routes (convertRankedToCandidateRoutes
           [\<lparr>GetPools = [pool1, pool2]\<rparr>, \<lparr>GetPools = [pool2]\<rparr>]) ! 0))
      = [(1, ''uion''), (2, ''uion'')]
   \<and> map (\<lambda>p. (ID p, TokenOutDenom p))
        (Pools (Routes (convertRankedToCandidateRoutes
           [\<lparr>GetPools = [pool1, pool2]\<rparr>, \<lparr>GetPools = [pool2]\<rparr>]) ! 1))
      = [(2, ''uion'')]
   \<and> UniquePoolIDs (convertRankedToCandidateRoutes
        [\<lparr>GetPools = [pool1, pool2]\<rparr>, \<lparr>GetPools = [pool2]\<rparr>]) = {1, 2}"
proof -
  let ?rs = "[\<lparr>GetPools = [pool1, pool2]\<rparr>, \<lparr>GetPools = [pool2]\<rparr>]"
  note inst = convertRankedToCandidateRoutes_structure [of ?rs]
  from inst have len: "length (Routes (convertRankedToCandidateRoutes ?rs)) = length ?rs"
    by (rule conjunct1)
  from inst have nth: "\<forall>i < length ?rs.
      map (\<lambda>p. (ID p, TokenOutDenom p)) (Pools (Routes (convertRankedToCandidateRoutes ?rs) ! i)) =
      map (\<lambda>p. (GetId p, GetTokenOutDenom p)) (GetPools (?rs ! i))"
    by (rule conjunct1 [OF conjunct2])
  from inst have uniq: "UniquePoolIDs (convertRankedToCandidateRoutes ?rs) =
      (\<Union>r \<in> set ?rs. GetId ` set (GetPools r))"
    by (rule conjunct2 [OF conjunct2])
  from len nth [rule_format, of 0] nth [rule_format, of 1] uniq
  show ?thesis
    by (simp add: pool1_def pool2_def insert_commute)
qed

subsection \<open>C10: cached ranked routes are pool-disjoint\<close>

text \<open>
  C10: every entry of the ranked-route cache that \<^verbatim>\<open>GetOptimalQuote\<close> changes holds
  candidate routes that are pairwise pool-disjoint, stored for five minutes; hence a
  cache all of whose candidate routes are pairwise disjoint stays so, and on a hit in
  such a cache the routes handed to the ranking are pairwise pool-disjoint.
\<close>

theorem ranked_cache_entries_pool_disjoint:
  "(\<forall>k. rankedRouteCache (snd (GetOptimalQuote env config ctx tokenIn tokenOutDenom s)) k
           \<noteq> rankedRouteCache s k \<longrightarrow>
         (\<exists>cr. rankedRouteCache (snd (GetOptimalQuote env config ctx tokenIn tokenOutDenom s)) k
                  = Some (CachedCandidateRoutes cr, time_Minute * 5)
              \<and> candidatesDisjoint cr))
   \<and> (cacheDisjoint (rankedRouteCache s) \<longrightarrow>
        cacheDisjoint (rankedRouteCache (snd (GetOptimalQuote env config ctx tokenIn tokenOutDenom s))))
   \<and> (\<forall>cr. cacheDisjoint (rankedRouteCache s) \<and>
            cache_Get (rankedRouteCache s) key = Some (CachedCandidateRoutes cr) \<longrightarrow>
            candidatesDisjoint cr \<and>
            fst (getRankedRoutes env config ctx router requestURLPath key tokenIn tokenOutDenom s)
              = rankRoutesByDirectQuote env ctx router cr tokenIn tokenOutDenom (routerRepository s))"
proof (intro conjI allI impI)
  fix k
  assume ch: "rankedRouteCache (snd (GetOptimalQuote env config ctx tokenIn tokenOutDenom s)) k
           \<noteq> rankedRouteCache s k"
  from GetOptimalQuote_cache [of env config ctx tokenIn tokenOutDenom s]
  show "\<exists>cr. rankedRouteCache (snd (GetOptimalQuote env config ctx tokenIn tokenOutDenom s)) k
                  = Some (CachedCandidateRoutes cr, time_Minute * 5)
              \<and> candidatesDisjoint cr"
  proof (elim disjE conjE exE)
    assume "rankedRouteCache (snd (GetOptimalQuote env config ctx tokenIn tokenOutDenom s)) = rankedRouteCache s"
    with ch show ?thesis by simp
  next
    fix cr
    assume d: "candidatesDisjoint cr"
      and w: "rankedRouteCache (snd (GetOptimalQuote env config ctx tokenIn tokenOutDenom s)) =
      (rankedRouteCache s)
        (formatRankedRouteCacheKey (Denom tokenIn) tokenOutDenom (OrderOfMagnitude env (Amount tokenIn)) \<mapsto>
         (CachedCandidateRoutes cr, time_Minute * 5))"
    from ch w have "k = formatRankedRouteCacheKey (Denom tokenIn) tokenOutDenom (OrderOfMagnitude env (Amount tokenIn))"
      by (simp split: if_splits)
    with w d show ?thesis by simp
  qed
next
  assume inv: "cacheDisjoint (rankedRouteCache s)"
  from GetOptimalQuote_cache [of env config ctx tokenIn tokenOutDenom s]
  show "cacheDisjoint (rankedRouteCache (snd (GetOptimalQuote env config ctx tokenIn tokenOutDenom s)))"
  proof (elim disjE conjE exE)
    assume "rankedRouteCache (snd (GetOptimalQuote env config ctx tokenIn tokenOutDenom s)) = rankedRouteCache s"
    with inv show ?thesis by simp
  next
    fix cr
    assume d: "candidatesDisjoint cr"
      and w: "rankedRouteCache (snd (GetOptimalQuote env config ctx tokenIn tokenOutDenom s)) =
      (rankedRouteCache s)
        (formatRankedRouteCacheKey (Denom tokenIn) tokenOutDenom (OrderOfMagnitude env (Amount tokenIn)) \<mapsto>
         (CachedCandidateRoutes cr, time_Minute * 5))"
    show ?thesis
      unfolding w cacheDisjoint_def
      using inv d by (auto simp: cacheDisjoint_def split: if_splits)
  qed
next
  fix cr
  assume a: "cacheDisjoint (rankedRouteCache s) \<and>
            cache_Get (rankedRouteCache s) key = Some (CachedCandidateRoutes cr)"
  then show "candidatesDisjoint cr"
    by (auto simp: cacheDisjoint_def cache_Get_def)
  from a show "fst (getRankedRoutes env config ctx router requestURLPath key tokenIn tokenOutDenom s)
              = rankRoutesByDirectQuote env ctx router cr tokenIn tokenOutDenom (routerRepository s)"
    by (simp add: getRankedRoutes_def rankedRoutesFromCache_def Let_def)
qed

theorem ranked_cache_entries_pool_disjoint_witness:
  "rankedRouteCache
     (snd (GetOptimalQuote (testEnv threeRoutes byFirstPool 0) ((testConfig True)\<lparr>MaxSplitRoutes := 3\<rparr>) ()
             (uosmo 1234567) ''uion'' (testState Map.empty))) ''uosmo/uion/6''
     = Some (CachedCandidateRoutes twoRoutes, time_Minute * 5)
   \<and> candidatesDisjoint twoRoutes
   \<and> cacheDisjoint (rankedRouteCache (testState Map.empty))
   \<and> cacheDisjoint (rankedRouteCache
        (snd (GetOptimalQuote (testEnv threeRoutes byFirstPool 0) ((testConfig True)\<lparr>MaxSplitRoutes := 3\<rparr>) ()
             (uosmo 1234567) ''uion'' (testState Map.empty))))"
proof -
  let ?run = "GetOptimalQuote (testEnv threeRoutes byFirstPool 0) ((testConfig True)\<lparr>MaxSplitRoutes := 3\<rparr>) ()
             (uosmo 1234567) ''uion'' (testState Map.empty)"
  note inst = ranked_cache_entries_pool_disjoint
    [where env = "testEnv threeRoutes byFirstPool 0" and config = "(testConfig True)\<lparr>MaxSplitRoutes := 3\<rparr>"
       and ctx = "()" and tokenIn = "uosmo 1234567" and tokenOutDenom = "''uion''"
       and s = "testState Map.empty"]
  have w: "rankedRouteCache (snd ?run) ''uosmo/uion/6'' = Some (CachedCandidateRoutes twoRoutes, time_Minute * 5)"
    by (simp add: run_simps threeRoutes_def byFirstPool_def insert_commute)
  have e: "rankedRouteCache (testState Map.empty) ''uosmo/uion/6'' = None"
    by (simp add: testState_def)
  from inst [THEN conjunct1, rule_format, of "''uosmo/uion/6''"] w e
  have d: "candidatesDisjoint twoRoutes" by simp
  have i: "cacheDisjoint (rankedRouteCache (testState Map.empty))"
    by (simp add: cacheDisjoint_def testState_def)
  from inst [THEN conjunct2, THEN conjunct1, rule_format, OF i]
  have "cacheDisjoint (rankedRouteCache (snd ?run))" .
  with w d i show ?thesis by simp
qed

end
